theory Spec2Isabelle
  imports Main "HOL-Library.Char_ord" "HOL-Library.List_Lexorder" "HOL-Library.Product_Lexorder"
begin

section \<open>Data frames\<close>

text \<open>
  \<open>process_trace_data\<close> (src/tidyfinance/tidyfinance.py, lines 1331-1571) is a pandas
  program. A data frame is modelled with its column labels, in order and possibly repeated
  (pandas allows duplicate labels), and its rows, each a list of cells in column order.
  A cell is missing (NaN, NaT, None), a number, a string, a timestamp (a day number) or a
  time difference (a number of days).
\<close>

datatype cell = NA | Num int | Str string | Date int | Delta int

text \<open>
  The exceptions of Python and pandas the code can raise, and \<open>DataIntegrityError\<close>
  (with the unresolved message identifiers), which is the specification's: no statement
  of the source raises it.
\<close>

datatype error =
    KeyError string
  | ValueError string
  | UndefinedVariableError string
  | AttributeError string
  | TypeError string
  | DataIntegrityError "cell list"

definition raised_by_pandas :: "error \<Rightarrow> bool" where
  "raised_by_pandas e = (case e of DataIntegrityError ids \<Rightarrow> False | _ \<Rightarrow> True)"

record frame =
  columns :: "string list"
  rows :: "cell list list"

definition nrows :: "frame \<Rightarrow> nat" where
  "nrows df = length (rows df)"

text \<open>The cell of row \<open>r\<close> under label \<open>c\<close> (the first column with that label).\<close>

definition cell_at :: "string list \<Rightarrow> cell list \<Rightarrow> string \<Rightarrow> cell" where
  "cell_at cs r c = (case map_of (zip cs r) c of Some v \<Rightarrow> v | None \<Rightarrow> NA)"

text \<open>\<open>df[c]\<close>: the column, or KeyError when the label is absent.\<close>

definition getitem :: "frame \<Rightarrow> string \<Rightarrow> error + cell list" where
  "getitem df c =
     (if c \<in> set (columns df) then Inr (map (\<lambda>r. cell_at (columns df) r c) (rows df))
      else Inl (KeyError c))"

text \<open>\<open>df[c] = vs\<close>: overwrites the column when the label exists, appends it otherwise.\<close>

fun set_cell :: "string list \<Rightarrow> cell list \<Rightarrow> string \<Rightarrow> cell \<Rightarrow> cell list" where
  "set_cell (k # ks) (x # xs) c v = (if k = c then v else x) # set_cell ks xs c v"
| "set_cell _ xs c v = xs"

definition setitem :: "frame \<Rightarrow> string \<Rightarrow> cell list \<Rightarrow> frame" where
  "setitem df c vs =
     (if c \<in> set (columns df)
      then df\<lparr>rows := map (\<lambda>(r, v). set_cell (columns df) r c v) (zip (rows df) vs)\<rparr>
      else \<lparr>columns = columns df @ [c],
            rows = map (\<lambda>(r, v). r @ [v]) (zip (rows df) vs)\<rparr>)"

text \<open>
  \<open>df.query(expr)\<close>: \<open>names\<close> lists the column names the expression mentions, in order;
  a name that is no column raises UndefinedVariableError. The rows on which the
  expression is true are kept, in order, under the same columns.
\<close>

definition query :: "string list \<Rightarrow> ((string \<Rightarrow> cell) \<Rightarrow> bool) \<Rightarrow> frame \<Rightarrow> error + frame" where
  "query names p df =
     (case find (\<lambda>n. n \<notin> set (columns df)) names of
        Some n \<Rightarrow> Inl (UndefinedVariableError n)
      | None \<Rightarrow> Inr (df\<lparr>rows := filter (\<lambda>r. p (cell_at (columns df) r)) (rows df)\<rparr>))"

text \<open>\<open>df.rename(columns={a: b})\<close>: relabels; a missing \<open>a\<close> is ignored, and an existing
  \<open>b\<close> is not checked, so the result can carry a label twice.\<close>

definition rename :: "string \<Rightarrow> string \<Rightarrow> frame \<Rightarrow> frame" where
  "rename a b df = df\<lparr>columns := map (\<lambda>c. if c = a then b else c) (columns df)\<rparr>"

text \<open>\<open>df.drop(columns=ds)\<close>: KeyError when a label is absent, else every column so
  labelled goes.\<close>

definition drop_cells :: "string list \<Rightarrow> string list \<Rightarrow> cell list \<Rightarrow> cell list" where
  "drop_cells cs ds r = map snd (filter (\<lambda>(k, v). k \<notin> set ds) (zip cs r))"

definition drop_columns :: "string list \<Rightarrow> frame \<Rightarrow> error + frame" where
  "drop_columns ds df =
     (case find (\<lambda>n. n \<notin> set (columns df)) ds of
        Some n \<Rightarrow> Inl (KeyError n)
      | None \<Rightarrow> Inr \<lparr>columns = filter (\<lambda>k. k \<notin> set ds) (columns df),
                      rows = map (drop_cells (columns df) ds) (rows df)\<rparr>)"

text \<open>\<open>df.get(labels)\<close>: the sub-frame with these columns, or None when one is absent
  (\<open>DataFrame.get\<close> swallows the KeyError).\<close>

definition get :: "string list \<Rightarrow> frame \<Rightarrow> frame option" where
  "get cs df =
     (if set cs \<subseteq> set (columns df)
      then Some \<lparr>columns = cs, rows = map (\<lambda>r. map (cell_at (columns df) r) cs) (rows df)\<rparr>
      else None)"

text \<open>\<open>pd.concat(frames, ignore_index=True)\<close>: the union of the columns in order of first
  appearance; a row is NaN under a column its frame lacks.\<close>

definition concat_columns :: "frame list \<Rightarrow> string list" where
  "concat_columns dfs = rev (remdups (rev (concat (map columns dfs))))"

definition concat_frames :: "frame list \<Rightarrow> frame" where
  "concat_frames dfs =
     (let cs = concat_columns dfs in
      \<lparr>columns = cs,
       rows = concat (map (\<lambda>df. map (\<lambda>r. map (\<lambda>c. if c \<in> set (columns df)
                                                    then cell_at (columns df) r c else NA) cs)
                                   (rows df)) dfs)\<rparr>)"

subsection \<open>Sequencing of calls that may raise\<close>

definition bnd :: "error + 'a \<Rightarrow> ('a \<Rightarrow> error + 'b) \<Rightarrow> error + 'b" where
  "bnd m f = (case m of Inl e \<Rightarrow> Inl e | Inr x \<Rightarrow> f x)"

fun mapM :: "('a \<Rightarrow> error + 'b) \<Rightarrow> 'a list \<Rightarrow> error + 'b list" where
  "mapM f [] = Inr []"
| "mapM f (x # xs) = bnd (f x) (\<lambda>y. bnd (mapM f xs) (\<lambda>ys. Inr (y # ys)))"

subsection \<open>merge\<close>

text \<open>
  \<open>left.merge(right, on=keys, how=..., indicator=...)\<close>. Each key is looked up in the right
  frame and then in the left one: an absent label raises KeyError, a label carried by two
  columns raises ValueError ("The column label ... is not unique."). The result has the
  left columns followed by the right columns that are no keys; a column that is no key
  and whose label both frames carry is suffixed \<open>_x\<close> on the left and \<open>_y\<close> on the right
  (the default \<open>suffixes\<close>); with \<open>indicator=True\<close> a last column \<open>_merge\<close> says
  \<open>left_only\<close> or \<open>both\<close>. Rows keep the order of the left frame; a left row gives one
  row for each right row with equal key cells (missing keys match each other), and with
  \<open>how='left'\<close> one row filled with NaN when there is none. (When the left frame has no
  row, pandas lists the key columns among the right frame's; the labels are the same.)
\<close>

datatype how = LeftJoin | InnerJoin

definition check_key :: "frame \<Rightarrow> string \<Rightarrow> error option" where
  "check_key df k =
     (if k \<notin> set (columns df) then Some (KeyError k)
      else if 1 < count_list (columns df) k
      then Some (ValueError (''The column label '' @ k @ '' is not unique.''))
      else None)"

fun check_keys :: "frame \<Rightarrow> frame \<Rightarrow> string list \<Rightarrow> error option" where
  "check_keys l r [] = None"
| "check_keys l r (k # ks) =
     (case check_key r k of Some e \<Rightarrow> Some e
      | None \<Rightarrow> (case check_key l k of Some e \<Rightarrow> Some e
                 | None \<Rightarrow> check_keys l r ks))"

definition merge_columns :: "bool \<Rightarrow> frame \<Rightarrow> frame \<Rightarrow> string list \<Rightarrow> string list" where
  "merge_columns ind l r on =
     map (\<lambda>c. if c \<notin> set on \<and> c \<in> set (columns r) then c @ ''_x'' else c) (columns l)
     @ map (\<lambda>c. if c \<in> set (columns l) then c @ ''_y'' else c)
         (filter (\<lambda>c. c \<notin> set on) (columns r))
     @ (if ind then [''_merge''] else [])"

definition key_of :: "string list \<Rightarrow> string list \<Rightarrow> cell list \<Rightarrow> cell list" where
  "key_of cs on r = map (cell_at cs r) on"

definition nonkey :: "string list \<Rightarrow> string list \<Rightarrow> cell list \<Rightarrow> cell list" where
  "nonkey cs on r = map snd (filter (\<lambda>(k, v). k \<notin> set on) (zip cs r))"

definition matches :: "frame \<Rightarrow> frame \<Rightarrow> string list \<Rightarrow> cell list \<Rightarrow> cell list list" where
  "matches l r on lr =
     filter (\<lambda>rr. key_of (columns r) on rr = key_of (columns l) on lr) (rows r)"

text \<open>A frame is rectangular: a row reads as NaN beyond its last cell.\<close>

definition fit :: "nat \<Rightarrow> cell list \<Rightarrow> cell list" where
  "fit n r = take n (r @ replicate n NA)"

definition merge_row :: "how \<Rightarrow> bool \<Rightarrow> frame \<Rightarrow> frame \<Rightarrow> string list \<Rightarrow> cell list \<Rightarrow> cell list list" where
  "merge_row h ind l r on lr =
     (let nk = length (filter (\<lambda>c. c \<notin> set on) (columns r));
          left = fit (length (columns l)) lr
      in if matches l r on lr = []
         then (if h = LeftJoin
               then [left @ replicate nk NA @ (if ind then [Str ''left_only''] else [])]
               else [])
         else map (\<lambda>rr. left @ fit nk (nonkey (columns r) on rr)
                          @ (if ind then [Str ''both''] else []))
                (matches l r on lr))"

definition merge :: "how \<Rightarrow> bool \<Rightarrow> frame \<Rightarrow> frame \<Rightarrow> string list \<Rightarrow> error + frame" where
  "merge h ind l r on =
     (case check_keys l r on of
        Some e \<Rightarrow> Inl e
      | None \<Rightarrow>
          if ind \<and> (''_merge'' \<in> set (columns l) \<or> ''_merge'' \<in> set (columns r))
          then Inl (ValueError ''Cannot use name of an existing column for indicator column'')
          else Inr \<lparr>columns = merge_columns ind l r on,
                    rows = concat (map (merge_row h ind l r on) (rows l))\<rparr>)"

text \<open>
  The chain the source writes six times for an anti-join:
  \<open>l.merge(r, on=keys, how='left', indicator=True).query("_merge == 'left_only'").drop(columns=['_merge'])\<close>.
\<close>

definition left_only :: "frame \<Rightarrow> frame \<Rightarrow> string list \<Rightarrow> error + frame" where
  "left_only l r on =
     bnd (merge LeftJoin True l r on) (\<lambda>m.
     bnd (query [''_merge''] (\<lambda>g. g ''_merge'' = Str ''left_only'') m) (\<lambda>q.
     drop_columns [''_merge''] q))"

subsection \<open>Dates, numbers and sorting\<close>

text \<open>
  \<open>pd.to_datetime\<close> on a column: a timestamp stays, a missing value stays missing, a
  string goes through pandas' date parser, which is the parameter \<open>parse\<close> (None when the
  string is no date), a number counts nanoseconds since 1970.
\<close>

definition to_datetime_cell :: "(string \<Rightarrow> int option) \<Rightarrow> cell \<Rightarrow> error + cell" where
  "to_datetime_cell parse c =
     (case c of
        NA \<Rightarrow> Inr NA
      | Date d \<Rightarrow> Inr (Date d)
      | Str s \<Rightarrow> (case parse s of Some d \<Rightarrow> Inr (Date d) | None \<Rightarrow> Inl (ValueError s))
      | Num n \<Rightarrow> Inr (Date (n div 86400000000000))
      | Delta d \<Rightarrow> Inl (TypeError ''timedelta is not convertible to datetime''))"

definition to_datetime :: "(string \<Rightarrow> int option) \<Rightarrow> cell list \<Rightarrow> error + cell list" where
  "to_datetime parse vs = mapM (to_datetime_cell parse) vs"

text \<open>The day number of 2012-02-06, the date the queries compare \<open>trd_rpt_dt\<close> with.\<close>

definition cutover :: int where
  "cutover = 15376"

definition date_ge :: "cell \<Rightarrow> int \<Rightarrow> bool" where
  "date_ge c d = (case c of Date x \<Rightarrow> d \<le> x | _ \<Rightarrow> False)"

definition date_lt :: "cell \<Rightarrow> int \<Rightarrow> bool" where
  "date_lt c d = (case c of Date x \<Rightarrow> x < d | _ \<Rightarrow> False)"

text \<open>The order \<open>sort_values\<close> and \<open>groupby\<close> use, missing values last.\<close>

definition cell_ord :: "cell \<Rightarrow> nat \<times> int \<times> string" where
  "cell_ord c =
     (case c of Num n \<Rightarrow> (0, n, []) | Date d \<Rightarrow> (1, d, []) | Delta d \<Rightarrow> (2, d, [])
      | Str s \<Rightarrow> (3, 0, s) | NA \<Rightarrow> (4, 0, []))"

definition sort_values :: "string list \<Rightarrow> frame \<Rightarrow> error + frame" where
  "sort_values by df =
     (case find (\<lambda>n. n \<notin> set (columns df)) by of
        Some n \<Rightarrow> Inl (KeyError n)
      | None \<Rightarrow> Inr (df\<lparr>rows := sort_key (\<lambda>r. map (\<lambda>c. cell_ord (cell_at (columns df) r c)) by)
                                    (rows df)\<rparr>))"

text \<open>
  What the model takes from pandas as parameters: the date parser of \<open>pd.to_datetime\<close>,
  \<open>Series.sub\<close> on two columns (what it returns and when it raises depends on the
  columns' dtypes), and \<open>pd.to_datetime(...).dt.strftime("%H:%M:%S")\<close> on a cell.
\<close>

record pandas =
  parse_date :: "string \<Rightarrow> int option"
  series_sub :: "cell list \<Rightarrow> cell list \<Rightarrow> error + cell list"
  strftime_hms :: "cell \<Rightarrow> error + cell"

section \<open>process_trace_data\<close>

definition k_econ :: "string list" where
  "k_econ = [''cusip_id'', ''msg_seq_nb'', ''entrd_vol_qt'', ''rptd_pr'', ''rpt_side_cd'',
             ''cntra_mp_id'', ''trd_exctn_dt'', ''trd_exctn_tm'']"

definition k_grp :: "string list" where
  "k_grp = [''cusip_id'', ''trd_exctn_dt'', ''entrd_vol_qt'', ''rptd_pr'', ''rpt_side_cd'',
            ''cntra_mp_id'']"

definition trc_st_in :: "string list \<Rightarrow> frame \<Rightarrow> error + frame" where
  "trc_st_in vs df = query [''trc_st''] (\<lambda>g. g ''trc_st'' \<in> set (map Str vs)) df"

definition post_cutover :: "frame \<Rightarrow> error + frame" where
  "post_cutover df = query [''trd_rpt_dt''] (\<lambda>g. date_ge (g ''trd_rpt_dt'') cutover) df"

definition pre_cutover :: "frame \<Rightarrow> error + frame" where
  "pre_cutover df = query [''trd_rpt_dt''] (\<lambda>g. date_lt (g ''trd_rpt_dt'') cutover) df"

text \<open>Lines 1348-1390: the post-cutover trades without cancellations and reversals.\<close>

definition trace_post_TR :: "frame \<Rightarrow> error + frame" where
  "trace_post_TR trace_all =
     bnd (trc_st_in [''T'', ''R''] trace_all) (\<lambda>a.
     bnd (post_cutover a) (\<lambda>tr.
     bnd (trc_st_in [''X'', ''C''] trace_all) (\<lambda>b.
     bnd (post_cutover b) (\<lambda>xc.
     left_only tr xc k_econ))))"

definition trace_post :: "frame \<Rightarrow> error + frame" where
  "trace_post trace_all =
     bnd (trace_post_TR trace_all) (\<lambda>tr.
     bnd (trc_st_in [''S''] trace_all) (\<lambda>c.
     bnd (post_cutover c) (\<lambda>y.
     left_only tr (rename ''orig_msg_seq_nb'' ''msg_seq_nb'' y) k_econ)))"

text \<open>Lines 1394-1415: the pre-cutover trades without cancellations.\<close>

definition trace_pre_T :: "frame \<Rightarrow> error + frame" where
  "trace_pre_T trace_all =
     bnd (trc_st_in [''C''] trace_all) (\<lambda>a.
     bnd (pre_cutover a) (\<lambda>c.
     bnd (trc_st_in [''T''] trace_all) (\<lambda>b.
     bnd (pre_cutover b) (\<lambda>t.
     left_only t (rename ''orig_msg_seq_nb'' ''msg_seq_nb'' c) k_econ))))"

text \<open>Lines 1418-1421: the pre-cutover corrections.\<close>

definition trace_pre_W :: "frame \<Rightarrow> error + frame" where
  "trace_pre_W trace_all = bnd (trc_st_in [''W''] trace_all) pre_cutover"

text \<open>
  Lines 1430-1464, one pass of the correction loop on the pending corrections \<open>w\<close> and the
  active trades \<open>t\<close>: the corrections that match a trade (\<open>.get\<close> gives None when a column of
  \<open>w\<close> is missing from the merged frame, and the later \<open>.rename\<close> on None raises
  AttributeError), the corrections that match none, the trades that no matching
  correction names, and the concatenation of these trades and the matching corrections.
\<close>

definition w_keys :: "string list" where
  "w_keys = [''cusip_id'', ''trd_exctn_dt'', ''orig_msg_seq_nb'']"

definition t_keys :: "string list" where
  "t_keys = [''cusip_id'', ''trd_exctn_dt'', ''msg_seq_nb'']"

definition loop_body :: "frame \<Rightarrow> frame \<Rightarrow> error + frame \<times> frame" where
  "loop_body w t =
     bnd (merge InnerJoin False w (rename ''msg_seq_nb'' ''orig_msg_seq_nb'' t) w_keys) (\<lambda>m.
     bnd (left_only w (rename ''msg_seq_nb'' ''orig_msg_seq_nb'' t) w_keys) (\<lambda>w'.
     case get (columns w) m of
       None \<Rightarrow> Inl (AttributeError ''NoneType object has no attribute rename'')
     | Some correcting \<Rightarrow>
         bnd (left_only t (rename ''orig_msg_seq_nb'' ''msg_seq_nb'' correcting) t_keys) (\<lambda>t'.
         Inr (w', concat_frames [t', correcting]))))"

subsection \<open>The anti-join chain never returns more rows than its left frame\<close>

lemma cell_at_last:
  "k \<notin> set cs \<Longrightarrow> length r = length cs \<Longrightarrow> cell_at (cs @ [k]) (r @ [v]) k = v"
  by (simp add: cell_at_def map_add_def map_of_zip_is_None[THEN iffD2])

lemma suffix_ne_merge: "c @ ''_x'' \<noteq> ''_merge''" "c @ ''_y'' \<noteq> ''_merge''"
proof -
  show "c @ ''_x'' \<noteq> ''_merge''"
  proof
    assume "c @ ''_x'' = ''_merge''"
    then have "last (c @ ''_x'') = last ''_merge''" by (rule arg_cong)
    then show False by simp
  qed
  show "c @ ''_y'' \<noteq> ''_merge''"
  proof
    assume "c @ ''_y'' = ''_merge''"
    then have "last (c @ ''_y'') = last ''_merge''" by (rule arg_cong)
    then show False by simp
  qed
qed

lemma length_fit [simp]: "length (fit n r) = n"
  by (simp add: fit_def)

lemma merge_columns_no_merge:
  "''_merge'' \<notin> set (columns l) \<Longrightarrow> ''_merge'' \<notin> set (columns r) \<Longrightarrow>
   ''_merge'' \<notin> set (merge_columns False l r on)"
  by (auto simp: merge_columns_def suffix_ne_merge)

lemma merge_columns_True:
  "merge_columns True l r on = merge_columns False l r on @ [''_merge'']"
  by (simp add: merge_columns_def)

lemma length_merge_columns_False:
  "length (merge_columns False l r on) =
   length (columns l) + length (filter (\<lambda>c. c \<notin> set on) (columns r))"
  by (simp add: merge_columns_def)

lemma merge_row_left_only:
  assumes "''_merge'' \<notin> set (columns l)" "''_merge'' \<notin> set (columns r)"
  shows "length (filter (\<lambda>x. cell_at (merge_columns True l r on) x ''_merge'' = Str ''left_only'')
            (merge_row LeftJoin True l r on lr)) \<le> 1"
proof -
  have nm: "''_merge'' \<notin> set (merge_columns False l r on)"
    using assms by (rule merge_columns_no_merge)
  show ?thesis
  proof (cases "matches l r on lr = []")
    case True
    then show ?thesis by (simp add: merge_row_def Let_def)
  next
    case False
    have "\<And>rr. cell_at (merge_columns True l r on)
             (fit (length (columns l)) lr
              @ fit (length (filter (\<lambda>c. c \<notin> set on) (columns r))) (nonkey (columns r) on rr)
              @ [Str ''both'']) ''_merge'' = Str ''both''"
      unfolding merge_columns_True append_assoc[symmetric]
      by (rule cell_at_last[OF nm]) (simp add: length_merge_columns_False)
    with False show ?thesis
      by (simp add: merge_row_def Let_def filter_map o_def)
  qed
qed

lemma length_concat_le:
  "(\<And>x. x \<in> set xs \<Longrightarrow> length (filter P (f x)) \<le> 1) \<Longrightarrow>
   length (filter P (concat (map f xs))) \<le> length xs"
proof (induction xs)
  case Nil
  then show ?case by simp
next
  case (Cons a xs)
  have "length (filter P (f a)) \<le> 1" using Cons.prems by simp
  moreover have "length (filter P (concat (map f xs))) \<le> length xs"
    using Cons by simp
  ultimately show ?case by simp
qed

lemma bnd_Inr: "bnd m f = Inr y \<Longrightarrow> \<exists>x. m = Inr x \<and> f x = Inr y"
  by (cases m) (simp_all add: bnd_def)

lemma query_Inr: "query ns p df = Inr q \<Longrightarrow>
  q = df\<lparr>rows := filter (\<lambda>r. p (cell_at (columns df) r)) (rows df)\<rparr>"
  by (simp add: query_def split: option.splits)

lemma drop_columns_nrows: "drop_columns ds df = Inr q \<Longrightarrow> nrows q = nrows df"
  by (auto simp: drop_columns_def nrows_def split: option.splits)

lemma merge_Inr: "merge h ind l r on = Inr m \<Longrightarrow>
  m = \<lparr>columns = merge_columns ind l r on, rows = concat (map (merge_row h ind l r on) (rows l))\<rparr>
  \<and> (ind \<longrightarrow> ''_merge'' \<notin> set (columns l) \<and> ''_merge'' \<notin> set (columns r))"
  by (auto simp: merge_def split: option.splits if_splits)

lemma left_only_nrows:
  assumes "left_only l r on = Inr q"
  shows "nrows q \<le> nrows l"
proof -
  from assms obtain m q1 where m: "merge LeftJoin True l r on = Inr m"
    and q1: "query [''_merge''] (\<lambda>g. g ''_merge'' = Str ''left_only'') m = Inr q1"
    and d: "drop_columns [''_merge''] q1 = Inr q"
    unfolding left_only_def by (blast dest: bnd_Inr)
  from merge_Inr[OF m] have mm: "columns m = merge_columns True l r on"
    "rows m = concat (map (merge_row LeftJoin True l r on) (rows l))"
    and nm: "''_merge'' \<notin> set (columns l)" "''_merge'' \<notin> set (columns r)" by simp_all
  have "nrows q1 \<le> nrows l"
    using query_Inr[OF q1] length_concat_le[of "rows l" _ "merge_row LeftJoin True l r on",
        OF merge_row_left_only[OF nm]]
    by (simp add: nrows_def mm)
  with drop_columns_nrows[OF d] show ?thesis by simp
qed


lemma loop_body_nrows:
  assumes "loop_body w t = Inr (w', t')"
  shows "nrows w' \<le> nrows w"
proof -
  from assms obtain m x where "left_only w (rename ''msg_seq_nb'' ''orig_msg_seq_nb'' t) w_keys = Inr x"
    and "(case get (columns w) m of
       None \<Rightarrow> Inl (AttributeError ''NoneType object has no attribute rename'')
     | Some correcting \<Rightarrow>
         bnd (left_only t (rename ''orig_msg_seq_nb'' ''msg_seq_nb'' correcting) t_keys) (\<lambda>t'.
         Inr (x, concat_frames [t', correcting]))) = Inr (w', t')"
    unfolding loop_body_def by (blast dest: bnd_Inr)
  then have "x = w'" "left_only w (rename ''msg_seq_nb'' ''orig_msg_seq_nb'' t) w_keys = Inr x"
    by (auto split: option.splits dest!: bnd_Inr)
  then show ?thesis using left_only_nrows by blast
qed

text \<open>
  Lines 1424-1472, the correction loop. \<open>correction_control\<close> starts as the number of
  pending corrections; after each pass it is the number still pending, or 0 when that
  number equals the one before the pass.
\<close>

function correction_loop :: "frame \<Rightarrow> frame \<Rightarrow> nat \<Rightarrow> nat \<Rightarrow> error + frame \<times> frame" where
  "correction_loop w t correction_control correction_control_last =
     (if 0 < correction_control
      then (case loop_body w t of
              Inl e \<Rightarrow> Inl e
            | Inr (w', t') \<Rightarrow>
                correction_loop w' t'
                  (if nrows w' = correction_control_last then 0 else nrows w')
                  (nrows w'))
      else Inr (w, t))"
  by pat_completeness auto
termination
proof (relation "measure (\<lambda>(w, t, c, l). if c = 0 then 0
                             else 1 + 2 * nrows w + (if l = nrows w then 0 else 1))")
  show "wf (measure (\<lambda>(w, t, c, l). if c = 0 then 0
                             else 1 + 2 * nrows w + (if l = nrows w then 0 else 1)))"
    by simp
next
  fix w t :: frame and c l :: nat and x2 :: "frame \<times> frame" and w' t'
  assume c: "0 < c" and b: "loop_body w t = Inr x2" and x: "(w', t') = x2"
  from b x have "nrows w' \<le> nrows w" using loop_body_nrows[of w t w' t'] by simp
  then show "((w', t', if nrows w' = l then 0 else nrows w', nrows w'), w, t, c, l)
       \<in> measure (\<lambda>(w, t, c, l). if c = 0 then 0
                             else 1 + 2 * nrows w + (if l = nrows w then 0 else 1))"
    using c by auto
qed

text \<open>The number of passes the loop makes from the same state.\<close>

function loop_passes :: "frame \<Rightarrow> frame \<Rightarrow> nat \<Rightarrow> nat \<Rightarrow> nat" where
  "loop_passes w t correction_control correction_control_last =
     (if 0 < correction_control
      then (case loop_body w t of
              Inl e \<Rightarrow> 1
            | Inr (w', t') \<Rightarrow>
                1 + loop_passes w' t'
                  (if nrows w' = correction_control_last then 0 else nrows w')
                  (nrows w'))
      else 0)"
  by pat_completeness auto
termination
proof (relation "measure (\<lambda>(w, t, c, l). if c = 0 then 0
                             else 1 + 2 * nrows w + (if l = nrows w then 0 else 1))")
  show "wf (measure (\<lambda>(w, t, c, l). if c = 0 then 0
                             else 1 + 2 * nrows w + (if l = nrows w then 0 else 1)))"
    by simp
next
  fix w t :: frame and c l :: nat and x2 :: "frame \<times> frame" and w' t'
  assume c: "0 < c" and b: "loop_body w t = Inr x2" and x: "(w', t') = x2"
  from b x have "nrows w' \<le> nrows w" using loop_body_nrows[of w t w' t'] by simp
  then show "((w', t', if nrows w' = l then 0 else nrows w', nrows w'), w, t, c, l)
       \<in> measure (\<lambda>(w, t, c, l). if c = 0 then 0
                             else 1 + 2 * nrows w + (if l = nrows w then 0 else 1))"
    using c by auto
qed

text \<open>
  Lines 1476-1508. \<open>groupby(k_grp).apply(...)\<close>: a row with a missing key cell belongs to no
  group; the groups come in key order; each is sorted by execution time, report date and
  report time and numbered 1..n in the column \<open>seq\<close>. With no group at all the result has
  the columns of the input and no \<open>seq\<close> column.
\<close>

definition sort_cols :: "string list" where
  "sort_cols = [''trd_exctn_tm'', ''trd_rpt_dt'', ''trd_rpt_tm'']"

definition assign_seq :: "frame \<Rightarrow> frame" where
  "assign_seq g = setitem g ''seq'' (map (\<lambda>i. Num (int i)) [1..<Suc (nrows g)])"

definition group_seq :: "frame \<Rightarrow> error + frame" where
  "group_seq df =
     (case find (\<lambda>n. n \<notin> set (columns df)) k_grp of
        Some n \<Rightarrow> Inl (KeyError n)
      | None \<Rightarrow>
          let live = filter (\<lambda>r. NA \<notin> set (key_of (columns df) k_grp r)) (rows df);
              keys = sort_key (map cell_ord) (remdups (map (key_of (columns df) k_grp) live))
          in if keys = [] then Inr (df\<lparr>rows := []\<rparr>)
             else bnd (mapM (\<lambda>k. bnd (sort_values sort_cols
                                     (df\<lparr>rows := filter (\<lambda>r. key_of (columns df) k_grp r = k) live\<rparr>))
                                   (\<lambda>g. Inr (rows (assign_seq g)))) keys)
                    (\<lambda>gs. Inr \<lparr>columns = columns (assign_seq (df\<lparr>rows := []\<rparr>)),
                               rows = concat gs\<rparr>))"

definition trace_pre :: "frame \<Rightarrow> error + frame" where
  "trace_pre t =
     bnd (query [''asof_cd''] (\<lambda>g. g ''asof_cd'' = Str ''R'') t) (\<lambda>r0.
     bnd (group_seq r0) (\<lambda>trace_pre_R.
     bnd (query [''asof_cd'']
            (\<lambda>g. g ''asof_cd'' = NA \<or> g ''asof_cd'' \<notin> {Str ''R'', Str ''X'', Str ''D''}) t) (\<lambda>n0.
     bnd (group_seq n0) (\<lambda>n.
     bnd (merge LeftJoin True n trace_pre_R (k_grp @ [''seq''])) (\<lambda>m.
     bnd (query [''_merge''] (\<lambda>g. g ''_merge'' = Str ''left_only'') m) (\<lambda>q.
     drop_columns [''seq'', ''_merge''] q))))))"

text \<open>
  Lines 1512-1542. \<open>.pipe(pd.concat, [sells, buys], ignore_index=True)\<close> calls
  \<open>pd.concat(customer_rows, [sells, buys], ignore_index=True)\<close>: the frame is the first
  argument and the list a second positional one, which \<open>pd.concat\<close> does not take.
\<close>

definition trace_agency_sells :: "frame \<Rightarrow> error + frame" where
  "trace_agency_sells trace_clean =
     bnd (query [''cntra_mp_id''] (\<lambda>g. g ''cntra_mp_id'' = Str ''D'') trace_clean) (\<lambda>d.
     query [''rpt_side_cd''] (\<lambda>g. g ''rpt_side_cd'' = Str ''S'') d)"

definition agency_keys :: "string list" where
  "agency_keys = [''cusip_id'', ''trd_exctn_dt'', ''entrd_vol_qt'', ''rptd_pr'']"

definition trace_agency_buys_filtered :: "frame \<Rightarrow> frame \<Rightarrow> error + frame" where
  "trace_agency_buys_filtered trace_clean sells =
     bnd (query [''cntra_mp_id''] (\<lambda>g. g ''cntra_mp_id'' = Str ''D'') trace_clean) (\<lambda>d.
     bnd (query [''rpt_side_cd''] (\<lambda>g. g ''rpt_side_cd'' = Str ''B'') d) (\<lambda>buys.
     left_only buys sells agency_keys))"

definition agency_clean :: "frame \<Rightarrow> frame \<Rightarrow> error + frame" where
  "agency_clean post pre =
     (let trace_clean = concat_frames [post, pre] in
      bnd (trace_agency_sells trace_clean) (\<lambda>sells.
      bnd (trace_agency_buys_filtered trace_clean sells) (\<lambda>buys.
      bnd (query [''cntra_mp_id''] (\<lambda>g. g ''cntra_mp_id'' = Str ''C'') trace_clean) (\<lambda>customers.
      Inl (TypeError ''concat() takes 1 positional argument but 2 were given'')))))"

text \<open>
  Lines 1545-1556. In the query \<open>c.isna() or c.astype(float) <= 7\<close> the names are resolved
  from left to right when the expression is parsed: the column \<open>c\<close>, then \<open>float\<close>, which is
  no column and no variable of the query's scope (a builtin is neither), so the query
  raises UndefinedVariableError for it on every frame that has the column.
\<close>

definition isna_or_le_7 :: "string \<Rightarrow> frame \<Rightarrow> error + frame" where
  "isna_or_le_7 c df =
     (if c \<notin> set (columns df) then Inl (UndefinedVariableError c)
      else Inl (UndefinedVariableError ''float''))"

definition missing_or_empty :: "string \<Rightarrow> frame \<Rightarrow> error + frame" where
  "missing_or_empty c df = query [c] (\<lambda>g. g c = NA \<or> g c = Str []) df"

definition trace_add_filters :: "pandas \<Rightarrow> frame \<Rightarrow> error + frame" where
  "trace_add_filters lib trace_clean =
     bnd (getitem trace_clean ''stlmnt_dt'') (\<lambda>s.
     bnd (getitem trace_clean ''trd_exctn_dt'') (\<lambda>d.
     bnd (series_sub lib s d) (\<lambda>lag.
     bnd (isna_or_le_7 ''days_to_sttl_ct'' (setitem trace_clean ''days_to_sttl_ct2'' lag)) (\<lambda>q1.
     bnd (isna_or_le_7 ''days_to_sttl_ct2'' q1) (\<lambda>q2.
     bnd (query [''wis_fl''] (\<lambda>g. g ''wis_fl'' = Str ''N'') q2) (\<lambda>q3.
     bnd (missing_or_empty ''spcl_trd_fl'' q3) (\<lambda>q4.
     missing_or_empty ''asof_cd'' q4)))))))"

text \<open>Lines 1560-1569: sorted, projected on the output columns, the time as text.\<close>

definition output_columns :: "string list" where
  "output_columns = [''cusip_id'', ''trd_exctn_dt'', ''trd_exctn_tm'', ''rptd_pr'',
                     ''entrd_vol_qt'', ''yld_pt'', ''rpt_side_cd'', ''cntra_mp_id'']"

definition trace_final :: "pandas \<Rightarrow> frame \<Rightarrow> error + frame" where
  "trace_final lib df =
     bnd (sort_values [''cusip_id'', ''trd_exctn_dt'', ''trd_exctn_tm''] df) (\<lambda>s.
     case get output_columns s of
       None \<Rightarrow> Inl (AttributeError ''NoneType object has no attribute assign'')
     | Some g \<Rightarrow>
         bnd (getitem g ''trd_exctn_tm'') (\<lambda>tm.
         bnd (mapM (strftime_hms lib) tm) (\<lambda>tm'.
         Inr (setitem g ''trd_exctn_tm'' tm'))))"

text \<open>
  Lines 1348-1571, everything after the first statement, on the frame that statement
  leaves.
\<close>

definition pipeline :: "pandas \<Rightarrow> frame \<Rightarrow> error + frame" where
  "pipeline lib trace_all =
     bnd (trace_post trace_all) (\<lambda>post.
     bnd (trace_pre_T trace_all) (\<lambda>t.
     bnd (trace_pre_W trace_all) (\<lambda>w.
     bnd (correction_loop w t (nrows w) (nrows w)) (\<lambda>(w', t').
     bnd (trace_pre t') (\<lambda>pre.
     bnd (agency_clean post pre) (\<lambda>trace_clean.
     bnd (trace_add_filters lib trace_clean) (\<lambda>filtered.
     trace_final lib filtered)))))))"

text \<open>
  Line 1347, \<open>trace_all['trd_rpt_dt'] = pd.to_datetime(trace_all['trd_rpt_dt'])\<close>, writes
  into the caller's frame. \<open>process_trace_data\<close> returns the caller's frame as the call
  leaves it, and what the call returns or raises.
\<close>

definition process_trace_data :: "pandas \<Rightarrow> frame \<Rightarrow> frame \<times> (error + frame)" where
  "process_trace_data lib trace_all =
     (case bnd (getitem trace_all ''trd_rpt_dt'') (to_datetime (parse_date lib)) of
        Inl e \<Rightarrow> (trace_all, Inl e)
      | Inr dates \<Rightarrow>
          (setitem trace_all ''trd_rpt_dt'' dates,
           pipeline lib (setitem trace_all ''trd_rpt_dt'' dates)))"

text \<open>
  Lines 1313-1326 of \<open>download_data_wrds_trace_enhanced\<close>: the query selects ten columns,
  and the frame \<open>pd.read_sql\<close> returns (its rows are the parameter) goes to
  \<open>process_trace_data\<close>.
\<close>

definition query_columns :: "string list" where
  "query_columns = [''cusip_id'', ''trd_exctn_dt'', ''trd_exctn_tm'', ''rptd_pr'',
                    ''entrd_vol_qt'', ''yld_pt'', ''rpt_side_cd'', ''cntra_mp_id'',
                    ''trc_st'', ''asof_cd'']"

definition download_data_wrds_trace_enhanced :: "pandas \<Rightarrow> cell list list \<Rightarrow> error + frame" where
  "download_data_wrds_trace_enhanced lib read_sql_rows =
     snd (process_trace_data lib \<lparr>columns = query_columns, rows = read_sql_rows\<rparr>)"

section \<open>Concrete inputs\<close>

text \<open>
  A pandas whose date parser knows one date and whose subtraction takes two columns of
  timestamps to their differences in days.
\<close>

definition sub_timestamps :: "cell list \<Rightarrow> cell list \<Rightarrow> error + cell list" where
  "sub_timestamps s d =
     mapM (\<lambda>(a, b). case (a, b) of
                      (Date x, Date y) \<Rightarrow> Inr (Delta (x - y))
                    | _ \<Rightarrow> Inl (TypeError ''unsupported operand type(s) for -''))
          (zip s d)"

definition example_pandas :: pandas where
  "example_pandas =
     \<lparr>parse_date = (\<lambda>s. if s = ''2011-05-03'' then Some 15097 else None),
      series_sub = sub_timestamps,
      strftime_hms = Inr\<rparr>"

text \<open>
  A frame with the eighteen columns of a TRACE message, and messages of one bond executed
  on 2011-05-03 (day 15097): \<open>message seq orig rpt_dt side mp st asof px\<close>.
\<close>

definition trace_columns :: "string list" where
  "trace_columns = [''cusip_id'', ''msg_seq_nb'', ''orig_msg_seq_nb'', ''trd_exctn_dt'',
     ''trd_exctn_tm'', ''trd_rpt_dt'', ''trd_rpt_tm'', ''entrd_vol_qt'', ''rptd_pr'', ''yld_pt'',
     ''rpt_side_cd'', ''cntra_mp_id'', ''trc_st'', ''asof_cd'', ''stlmnt_dt'',
     ''days_to_sttl_ct'', ''wis_fl'', ''spcl_trd_fl'']"

definition message :: "int \<Rightarrow> cell \<Rightarrow> cell \<Rightarrow> string \<Rightarrow> string \<Rightarrow> string \<Rightarrow> cell \<Rightarrow> int \<Rightarrow> cell list" where
  "message seq orig rpt_dt side mp st asof px =
     [Str ''00077TAA2'', Num seq, orig, Date 15097, Str ''10:15:00'', rpt_dt, Str ''10:15:30'',
      Num 100, Num px, Num 41, Str side, Str mp, Str st, asof, Date 15100, Num 3, Str ''N'', NA]"

definition ledger_row :: "cell list" where
  "ledger_row = [Str ''00077TAA2'', Date 15097, Str ''10:15:00'', Num 995, Num 100, Num 41,
                 Str ''B'', Str ''C'']"




text \<open>A table without the column \<open>orig_msg_seq_nb\<close>, holding one pre-cutover trade.\<close>

definition short_columns :: "string list" where
  "short_columns = [''cusip_id'', ''msg_seq_nb'', ''trd_exctn_dt'', ''trd_exctn_tm'',
     ''trd_rpt_dt'', ''entrd_vol_qt'', ''rptd_pr'', ''rpt_side_cd'', ''cntra_mp_id'',
     ''trc_st'', ''asof_cd'']"

definition short_trade :: "cell list" where
  "short_trade = [Str ''00077TAA2'', Num 1, Date 15097, Str ''10:15:00'', Date 15097, Num 100,
     Num 995, Str ''B'', Str ''C'', Str ''T'', NA]"

text \<open>
  A post-cutover table: trade 1, trade 2 and the cancellation of trade 2; and a merged
  clean set: an agency sell, an agency buy at the same price and one at another price.
\<close>

definition post_table :: frame where
  "post_table = \<lparr>columns = trace_columns,
     rows = [message 1 NA (Date 15400) ''B'' ''C'' ''T'' NA 995,
             message 2 NA (Date 15400) ''B'' ''C'' ''T'' NA 1000,
             message 2 NA (Date 15401) ''B'' ''C'' ''X'' NA 1000]\<rparr>"

definition agency_table :: frame where
  "agency_table = \<lparr>columns = trace_columns,
     rows = [message 1 NA (Date 15097) ''S'' ''D'' ''T'' NA 995,
             message 2 NA (Date 15097) ''B'' ''D'' ''T'' NA 995,
             message 3 NA (Date 15097) ''B'' ''D'' ''T'' NA 1000]\<rparr>"

section \<open>Properties\<close>

lemma process_trace_data_no_trd_rpt_dt:
  "''trd_rpt_dt'' \<notin> set (columns df) \<Longrightarrow>
   process_trace_data lib df = (df, Inl (KeyError ''trd_rpt_dt''))"
  by (simp add: process_trace_data_def getitem_def bnd_def)

lemma mapM_length: "mapM f xs = Inr ys \<Longrightarrow> length ys = length xs"
  by (induction xs arbitrary: ys) (auto simp: bnd_def split: sum.splits)

lemma cell_at_set_cell:
  "c' \<noteq> c \<Longrightarrow> cell_at cs (set_cell cs r c v) c' = cell_at cs r c'"
  by (induction cs r c v rule: set_cell.induct) (auto simp: cell_at_def)

lemma columns_setitem_present:
  "c \<in> set (columns df) \<Longrightarrow> columns (setitem df c vs) = columns df"
  by (simp add: setitem_def)

lemma trace_final_columns:
  assumes "trace_final lib df = Inr out"
  shows "columns out = output_columns"
proof -
  from assms obtain s g tm tm' where "get output_columns s = Some g"
    and "getitem g ''trd_exctn_tm'' = Inr tm" and out: "out = setitem g ''trd_exctn_tm'' tm'"
    unfolding trace_final_def
    by (auto dest!: bnd_Inr split: option.splits)
  then have "columns g = output_columns"
    by (auto simp: get_def split: if_splits)
  then show ?thesis using out
    by (simp add: columns_setitem_present output_columns_def)
qed

text \<open>
  C10. A frame whose columns are the ten the query of
  \<open>download_data_wrds_trace_enhanced\<close> selects has no column \<open>trd_rpt_dt\<close>, so the first
  statement of \<open>process_trace_data\<close> raises KeyError for it and no cleaned table is
  returned; the downloader, which passes the query's result on, raises the same error
  whatever rows the query returns.
\<close>

theorem query_result_raises_KeyError:
  assumes "set (columns df) = set query_columns"
  shows "snd (process_trace_data lib df) = Inl (KeyError ''trd_rpt_dt'') \<and>
         download_data_wrds_trace_enhanced lib rs = Inl (KeyError ''trd_rpt_dt'')"
proof -
  have absent: "''trd_rpt_dt'' \<notin> set query_columns"
    by (simp add: query_columns_def)
  then have "snd (process_trace_data lib df) = Inl (KeyError ''trd_rpt_dt'')"
    using assms by (simp add: process_trace_data_no_trd_rpt_dt)
  moreover have "download_data_wrds_trace_enhanced lib rs = Inl (KeyError ''trd_rpt_dt'')"
    using absent
    by (simp add: download_data_wrds_trace_enhanced_def process_trace_data_no_trd_rpt_dt)
  ultimately show ?thesis by simp
qed

theorem query_result_raises_KeyError_witness:
  "snd (process_trace_data example_pandas
          \<lparr>columns = query_columns,
           rows = [[Str ''00077TAA2'', Date 15097, Str ''10:15:00'', Num 995, Num 100, Num 41,
                    Str ''B'', Str ''C'', Str ''T'', NA]]\<rparr>)
     = Inl (KeyError ''trd_rpt_dt'') \<and>
   download_data_wrds_trace_enhanced example_pandas
     [[Str ''00077TAA2'', Date 15097, Str ''10:15:00'', Num 995, Num 100, Num 41,
       Str ''B'', Str ''C'', Str ''T'', NA]]
     = Inl (KeyError ''trd_rpt_dt'')"
  using query_result_raises_KeyError
    [of "\<lparr>columns = query_columns,
           rows = [[Str ''00077TAA2'', Date 15097, Str ''10:15:00'', Num 995, Num 100, Num 41,
                    Str ''B'', Str ''C'', Str ''T'', NA]]\<rparr>"]
  by simp

lemma trace_final_ledger_row:
  "trace_final example_pandas \<lparr>columns = output_columns, rows = [ledger_row]\<rparr>
     = Inr \<lparr>columns = output_columns, rows = [ledger_row]\<rparr>"
  by (simp add: trace_final_def sort_values_def output_columns_def ledger_row_def bnd_def
      get_def cell_at_def getitem_def example_pandas_def setitem_def)

text \<open>
  A table the output stage (lines 1560-1569) produces has the eight output columns and no
  \<open>trd_rpt_dt\<close>, so \<open>process_trace_data\<close> on it raises KeyError for \<open>trd_rpt_dt\<close> and
  leaves the table as it was.
\<close>

theorem clean_rejects_its_output:
  "trace_final lib df = Inr out \<Longrightarrow>
   process_trace_data lib out = (out, Inl (KeyError ''trd_rpt_dt''))"
proof -
  assume "trace_final lib df = Inr out"
  then have "columns out = output_columns" by (rule trace_final_columns)
  then have "''trd_rpt_dt'' \<notin> set (columns out)" by (simp add: output_columns_def)
  then show ?thesis by (rule process_trace_data_no_trd_rpt_dt)
qed

theorem clean_rejects_its_output_witness:
  "trace_final example_pandas \<lparr>columns = output_columns, rows = [ledger_row]\<rparr>
     = Inr \<lparr>columns = output_columns, rows = [ledger_row]\<rparr> \<and>
   process_trace_data example_pandas \<lparr>columns = output_columns, rows = [ledger_row]\<rparr>
     = (\<lparr>columns = output_columns, rows = [ledger_row]\<rparr>, Inl (KeyError ''trd_rpt_dt''))"
  using clean_rejects_its_output[OF trace_final_ledger_row] trace_final_ledger_row by simp

lemma getitem_length:
  "getitem df c = Inr vs \<Longrightarrow> length vs = length (rows df) \<and> c \<in> set (columns df)"
  by (auto simp: getitem_def split: if_splits)

text \<open>
  C9, as stated: after the call every column of every row of the input is as before.
  It fails on a one-message table whose report date is the string 2011-05-03: after the
  call the cell holds the timestamp.
\<close>

theorem input_unchanged_counterexample:
  "fst (process_trace_data example_pandas
          \<lparr>columns = trace_columns,
           rows = [message 1 NA (Str ''2011-05-03'') ''B'' ''C'' ''T'' NA 995]\<rparr>)
     = \<lparr>columns = trace_columns,
        rows = [message 1 NA (Date 15097) ''B'' ''C'' ''T'' NA 995]\<rparr> \<and>
   fst (process_trace_data example_pandas
          \<lparr>columns = trace_columns,
           rows = [message 1 NA (Str ''2011-05-03'') ''B'' ''C'' ''T'' NA 995]\<rparr>)
     \<noteq> \<lparr>columns = trace_columns,
         rows = [message 1 NA (Str ''2011-05-03'') ''B'' ''C'' ''T'' NA 995]\<rparr>"
  by (simp add: process_trace_data_def getitem_def trace_columns_def message_def cell_at_def
      to_datetime_def to_datetime_cell_def example_pandas_def bnd_def setitem_def)

text \<open>
  C9, amended: the call writes into the input's column \<open>trd_rpt_dt\<close> and nowhere else:
  afterwards the input has the same columns and as many rows, and every cell under any
  other label is as before.
\<close>

theorem input_written_only_in_trd_rpt_dt:
  "columns (fst (process_trace_data lib df)) = columns df \<and>
   length (rows (fst (process_trace_data lib df))) = length (rows df) \<and>
   (\<forall>i c. i < length (rows df) \<and> c \<noteq> ''trd_rpt_dt'' \<longrightarrow>
      cell_at (columns df) (rows (fst (process_trace_data lib df)) ! i) c
        = cell_at (columns df) (rows df ! i) c)"
proof (cases "bnd (getitem df ''trd_rpt_dt'') (to_datetime (parse_date lib))")
  case (Inl e)
  then show ?thesis by (simp add: process_trace_data_def)
next
  case (Inr dates)
  then obtain vs where g: "getitem df ''trd_rpt_dt'' = Inr vs"
    and d: "to_datetime (parse_date lib) vs = Inr dates"
    by (blast dest: bnd_Inr)
  from getitem_length[OF g] mapM_length[OF d[unfolded to_datetime_def]]
  have len: "length dates = length (rows df)" and mem: "''trd_rpt_dt'' \<in> set (columns df)"
    by simp_all
  have fst: "fst (process_trace_data lib df) = setitem df ''trd_rpt_dt'' dates"
    using Inr by (simp add: process_trace_data_def)
  show ?thesis
    unfolding fst using len mem
    by (simp add: setitem_def cell_at_set_cell)
qed

theorem input_written_only_in_trd_rpt_dt_witness:
  "columns (fst (process_trace_data example_pandas
      \<lparr>columns = trace_columns,
       rows = [message 1 NA (Str ''2011-05-03'') ''B'' ''C'' ''T'' NA 995]\<rparr>)) = trace_columns \<and>
   length (rows (fst (process_trace_data example_pandas
      \<lparr>columns = trace_columns,
       rows = [message 1 NA (Str ''2011-05-03'') ''B'' ''C'' ''T'' NA 995]\<rparr>))) = 1 \<and>
   cell_at trace_columns (rows (fst (process_trace_data example_pandas
      \<lparr>columns = trace_columns,
       rows = [message 1 NA (Str ''2011-05-03'') ''B'' ''C'' ''T'' NA 995]\<rparr>)) ! 0) ''rptd_pr''
     = Num 995"
proof -
  let ?df = "\<lparr>columns = trace_columns,
              rows = [message 1 NA (Str ''2011-05-03'') ''B'' ''C'' ''T'' NA 995]\<rparr>"
  note h = input_written_only_in_trd_rpt_dt[of example_pandas ?df]
  note a = h[THEN conjunct1]
  note b = h[THEN conjunct2, THEN conjunct1]
  note q = h[THEN conjunct2, THEN conjunct2, THEN spec, THEN spec, of 0 "''rptd_pr''"]
  have c: "cell_at trace_columns (rows (fst (process_trace_data example_pandas ?df)) ! 0) ''rptd_pr''
        = cell_at trace_columns (message 1 NA (Str ''2011-05-03'') ''B'' ''C'' ''T'' NA 995) ''rptd_pr''"
    using q by simp
  have d: "cell_at trace_columns (message 1 NA (Str ''2011-05-03'') ''B'' ''C'' ''T'' NA 995) ''rptd_pr''
        = Num 995"
    by (simp add: message_def trace_columns_def cell_at_def)
  show ?thesis using a b c d by simp
qed

lemma loop_passes_le:
  "c = 0 \<or> (c = nrows w \<and> l = nrows w) \<Longrightarrow> loop_passes w t c l \<le> c"
proof (induction w t c l rule: loop_passes.induct)
  case (1 w t c l)
  show ?case
  proof (cases "0 < c")
    case False
    then show ?thesis by simp
  next
    case True
    with "1.prems" have cl: "c = nrows w" "l = nrows w" by simp_all
    show ?thesis
    proof (cases "loop_body w t")
      case (Inl e)
      with True show ?thesis by simp
    next
      case (Inr x2)
      obtain w' t' where x2: "x2 = (w', t')" by (cases x2)
      from Inr x2 have le: "nrows w' \<le> nrows w" using loop_body_nrows by simp
      have "loop_passes w' t' (if nrows w' = l then 0 else nrows w') (nrows w')
              \<le> (if nrows w' = l then 0 else nrows w')"
        by (rule "1.IH"[OF True Inr x2[symmetric]]) simp
      then show ?thesis using True Inr x2 le cl by (simp split: if_splits)
    qed
  qed
qed


lemma merge_row_left_only_count:
  assumes "''_merge'' \<notin> set (columns l)" "''_merge'' \<notin> set (columns r)"
  shows "length (filter (\<lambda>x. cell_at (merge_columns True l r on) x ''_merge'' = Str ''left_only'')
            (merge_row LeftJoin True l r on lr)) = (if matches l r on lr = [] then 1 else 0)"
proof -
  have nm: "''_merge'' \<notin> set (merge_columns False l r on)"
    using assms by (rule merge_columns_no_merge)
  show ?thesis
  proof (cases "matches l r on lr = []")
    case True
    have "cell_at (merge_columns True l r on)
             (fit (length (columns l)) lr
              @ replicate (length (filter (\<lambda>c. c \<notin> set on) (columns r))) NA
              @ [Str ''left_only'']) ''_merge'' = Str ''left_only''"
      unfolding merge_columns_True append_assoc[symmetric]
      by (rule cell_at_last[OF nm]) (simp add: length_merge_columns_False)
    with True show ?thesis by (simp add: merge_row_def Let_def)
  next
    case False
    have "\<And>rr. cell_at (merge_columns True l r on)
             (fit (length (columns l)) lr
              @ fit (length (filter (\<lambda>c. c \<notin> set on) (columns r))) (nonkey (columns r) on rr)
              @ [Str ''both'']) ''_merge'' = Str ''both''"
      unfolding merge_columns_True append_assoc[symmetric]
      by (rule cell_at_last[OF nm]) (simp add: length_merge_columns_False)
    with False show ?thesis
      by (simp add: merge_row_def Let_def filter_map o_def)
  qed
qed

lemma length_filter_concat_count:
  "(\<And>x. x \<in> set xs \<Longrightarrow> length (filter P (f x)) = (if Q x then 1 else 0)) \<Longrightarrow>
   length (filter P (concat (map f xs))) = length (filter Q xs)"
  by (induction xs) auto

lemma left_only_count:
  assumes "left_only l r on = Inr q"
  shows "nrows q = length (filter (\<lambda>lr. matches l r on lr = []) (rows l))"
proof -
  from assms obtain m q1 where m: "merge LeftJoin True l r on = Inr m"
    and q1: "query [''_merge''] (\<lambda>g. g ''_merge'' = Str ''left_only'') m = Inr q1"
    and d: "drop_columns [''_merge''] q1 = Inr q"
    unfolding left_only_def by (blast dest: bnd_Inr)
  from merge_Inr[OF m] have mm: "columns m = merge_columns True l r on"
    "rows m = concat (map (merge_row LeftJoin True l r on) (rows l))"
    and nm: "''_merge'' \<notin> set (columns l)" "''_merge'' \<notin> set (columns r)" by simp_all
  have "nrows q1 = length (filter (\<lambda>lr. matches l r on lr = []) (rows l))"
    using query_Inr[OF q1]
      length_filter_concat_count[of "rows l" _ "merge_row LeftJoin True l r on"
        "\<lambda>lr. matches l r on lr = []", OF merge_row_left_only_count[OF nm]]
    by (simp add: nrows_def mm)
  with drop_columns_nrows[OF d] show ?thesis by simp
qed

lemma left_only_all_unmatched:
  assumes "left_only l r on = Inr q" "nrows q = nrows l" "lr \<in> set (rows l)"
  shows "matches l r on lr = []"
proof (rule ccontr)
  assume "matches l r on lr \<noteq> []"
  with assms(3) have "length (filter (\<lambda>lr. matches l r on lr = []) (rows l)) < length (rows l)"
    by (intro length_filter_less) auto
  with left_only_count[OF assms(1)] assms(2) show False by (simp add: nrows_def)
qed

lemma left_only_empty_right:
  assumes "left_only l r on = Inr q" "rows r = []"
  shows "nrows q = nrows l"
  using left_only_count[OF assms(1)] assms(2) by (simp add: matches_def nrows_def)

lemma nrows_concat_frames2: "nrows (concat_frames [a, b]) = nrows a + nrows b"
  by (simp add: concat_frames_def nrows_def Let_def)

lemma get_rows: "get cs m = Some c \<Longrightarrow> rows m = [] \<Longrightarrow> rows c = []"
  by (auto simp: get_def split: if_splits)

lemma drop_columns_Inr:
  "drop_columns ds df = Inr q \<Longrightarrow> columns q = filter (\<lambda>k. k \<notin> set ds) (columns df)"
  by (auto simp: drop_columns_def split: option.splits)

lemma cell_at_Nil [simp]: "cell_at cs [] x = NA"
  by (simp add: cell_at_def)

lemma cell_at_replicate_NA: "cell_at cs (replicate n NA) x = NA"
  by (auto simp: cell_at_def split: option.splits dest!: map_of_SomeD set_zip_rightD)

lemma fit_alt: "fit n r = take n r @ replicate (n - length r) NA"
  by (simp add: fit_def min_def)

lemma fit_Cons: "fit (Suc n) (a # r) = a # fit n r"
  by (simp add: fit_alt)

lemma fit_Nil: "fit n [] = replicate n NA"
  by (simp add: fit_alt)

lemma cell_at_fit: "cell_at cs (fit (length cs) r) x = cell_at cs r x"
proof (induction cs arbitrary: r)
  case Nil
  then show ?case by (simp add: cell_at_def)
next
  case (Cons c cs)
  show ?case
  proof (cases r)
    case Nil
    then show ?thesis
      using cell_at_replicate_NA[of "c # cs" "Suc (length cs)" x] by (simp add: fit_Nil)
  next
    case (Cons a r')
    have "cell_at cs (fit (length cs) r') x = cell_at cs r' x" by (rule Cons.IH)
    then show ?thesis using Cons by (simp add: fit_Cons cell_at_def)
  qed
qed

lemma cell_at_append:
  "x \<in> set cs \<Longrightarrow> length r = length cs \<Longrightarrow> cell_at (cs @ cs') (r @ r') x = cell_at cs r x"
  by (auto simp: cell_at_def map_add_def map_of_zip_is_None split: option.splits)

lemma cell_at_map_self: "x \<in> set cs \<Longrightarrow> cell_at cs (map g cs) x = g x"
  by (induction cs) (auto simp: cell_at_def)


lemma concat_map_singleton: "concat (map (\<lambda>x. [f x]) xs) = map f xs"
  by (induction xs) auto

lemma drop_cells_last:
  assumes "k \<notin> set cs" "length r = length cs"
  shows "drop_cells (cs @ [k]) [k] (r @ [v]) = r"
proof -
  have "filter (\<lambda>(k', v). k' \<noteq> k) (zip cs r) = zip cs r"
    using assms(1) by (auto simp: filter_id_conv dest: set_zip_leftD)
  then show ?thesis using assms(2) by (simp add: drop_cells_def)
qed

lemma left_only_empty_right_frame:
  assumes "left_only l r on = Inr q" "rows r = []"
  shows "columns q = merge_columns False l r on \<and>
         rows q = map (\<lambda>lr. fit (length (columns l)) lr
                         @ replicate (length (filter (\<lambda>c. c \<notin> set on) (columns r))) NA) (rows l)"
proof -
  let ?nk = "length (filter (\<lambda>c. c \<notin> set on) (columns r))"
  let ?row = "\<lambda>lr. fit (length (columns l)) lr @ replicate ?nk NA"
  from assms obtain m q1 where m: "merge LeftJoin True l r on = Inr m"
    and q1: "query [''_merge''] (\<lambda>g. g ''_merge'' = Str ''left_only'') m = Inr q1"
    and d: "drop_columns [''_merge''] q1 = Inr q"
    unfolding left_only_def by (blast dest: bnd_Inr)
  from merge_Inr[OF m] have mc: "columns m = merge_columns False l r on @ [''_merge'']"
    and mr: "rows m = concat (map (merge_row LeftJoin True l r on) (rows l))"
    and nm: "''_merge'' \<notin> set (columns l)" "''_merge'' \<notin> set (columns r)"
    by (simp_all add: merge_columns_True)
  have nmc: "''_merge'' \<notin> set (merge_columns False l r on)"
    using nm by (rule merge_columns_no_merge)
  have len: "\<And>lr. length (?row lr) = length (merge_columns False l r on)"
    by (simp add: length_merge_columns_False)
  have "merge_row LeftJoin True l r on = (\<lambda>lr. [?row lr @ [Str ''left_only'']])"
    using assms(2) by (simp add: merge_row_def matches_def Let_def fun_eq_iff)
  then have mr': "rows m = map (\<lambda>lr. ?row lr @ [Str ''left_only'']) (rows l)"
    by (simp add: mr concat_map_singleton)
  have keep: "\<And>lr. cell_at (columns m) (?row lr @ [Str ''left_only'']) ''_merge'' = Str ''left_only''"
    unfolding mc by (rule cell_at_last[OF nmc len])
  have q1r: "rows q1 = rows m" "columns q1 = columns m"
    using query_Inr[OF q1] keep by (simp_all add: mr' filter_map o_def)
  have "columns q = merge_columns False l r on"
  proof -
    have "filter (\<lambda>k. k \<noteq> ''_merge'') (merge_columns False l r on) = merge_columns False l r on"
      unfolding filter_id_conv using nmc by blast
    then show ?thesis using drop_columns_Inr[OF d] nmc by (simp add: q1r mc)
  qed
  moreover have "rows q = map ?row (rows l)"
  proof -
    have "rows q = map (drop_cells (columns m) [''_merge'']) (rows m)"
      using d by (auto simp: drop_columns_def q1r split: option.splits)
    also have "\<dots> = map ?row (rows l)"
      unfolding mr' mc using drop_cells_last[OF nmc len] by (simp add: o_def)
    finally show ?thesis .
  qed
  ultimately show ?thesis by simp
qed

lemma merge_columns_no_shared:
  assumes "\<forall>c \<in> set (columns l). c \<in> set on \<or> c \<notin> set (columns r)"
  shows "merge_columns False l r on = columns l @ filter (\<lambda>c. c \<notin> set on) (columns r)"
proof -
  have "map (\<lambda>c. if c \<notin> set on \<and> c \<in> set (columns r) then c @ ''_x'' else c) (columns l)
          = columns l"
    using assms by (intro map_idI) auto
  moreover have "map (\<lambda>c. if c \<in> set (columns l) then c @ ''_y'' else c)
                   (filter (\<lambda>c. c \<notin> set on) (columns r))
          = filter (\<lambda>c. c \<notin> set on) (columns r)"
    using assms by (intro map_idI) auto
  ultimately show ?thesis by (simp add: merge_columns_def)
qed

lemma set_concat_columns: "set (concat_columns dfs) = (\<Union>df \<in> set dfs. set (columns df))"
  by (simp add: concat_columns_def)

lemma concat_frames_empty_second:
  assumes "rows b = []"
  shows "rows (concat_frames [a, b]) =
         map (\<lambda>r. map (\<lambda>c. if c \<in> set (columns a) then cell_at (columns a) r c else NA)
                     (columns (concat_frames [a, b]))) (rows a)"
  using assms by (simp add: concat_frames_def Let_def)

lemma columns_concat_frames: "set (columns (concat_frames [a, b])) = set (columns a) \<union> set (columns b)"
  by (simp add: concat_frames_def Let_def set_concat_columns)



subsection \<open>Unfolding on concrete frames\<close>


lemmas frame_defs = getitem_def setitem_def query_def rename_def drop_columns_def drop_cells_def
  get_def concat_frames_def concat_columns_def bnd_def check_key_def merge_columns_def
  key_of_def nonkey_def matches_def merge_row_def fit_def merge_def left_only_def
  to_datetime_def to_datetime_cell_def cutover_def date_ge_def date_lt_def cell_ord_def
  sort_values_def cell_at_def nrows_def Let_def

lemmas step_defs = trc_st_in_def post_cutover_def pre_cutover_def trace_post_TR_def
  trace_post_def trace_pre_T_def trace_pre_W_def w_keys_def t_keys_def agency_keys_def loop_body_def k_econ_def k_grp_def
  pipeline_def process_trace_data_def example_pandas_def trace_columns_def message_def

subsection \<open>The function never returns\<close>

text \<open>
  \<open>process_trace_data\<close> returns no table on any input: whatever the earlier steps do, the
  agency step ends in the call of \<open>pd.concat\<close> with two positional arguments.
\<close>

lemma agency_clean_never_returns: "agency_clean post pre \<noteq> Inr x"
  by (auto simp: agency_clean_def Let_def bnd_def split: sum.splits)

lemma pipeline_never_returns: "pipeline lib ta \<noteq> Inr out"
  unfolding pipeline_def
  by (auto dest!: bnd_Inr simp: agency_clean_never_returns simp del: correction_loop.simps)

theorem process_trace_data_always_raises:
  "\<exists>e. snd (process_trace_data lib trace_all) = Inl e"
proof (cases "snd (process_trace_data lib trace_all)")
  case (Inl e)
  then show ?thesis by blast
next
  case (Inr out)
  then have "\<exists>ta. pipeline lib ta = Inr out"
    by (auto simp: process_trace_data_def split: sum.splits)
  then show ?thesis by (simp add: pipeline_never_returns)
qed

text \<open>
  The correction loop makes at most as many passes as there are corrections pending when
  it starts (and \<open>correction_loop\<close> is a total function: its recursion is accepted with
  the measure on the pending count).
\<close>

theorem correction_loop_passes_within_pending:
  "loop_passes w t (nrows w) (nrows w) \<le> nrows w"
  by (rule loop_passes_le) simp

subsection \<open>No error but those of pandas\<close>

lemma raised_by_pandas_simps [simp]:
  "raised_by_pandas (KeyError a)" "raised_by_pandas (ValueError a)"
  "raised_by_pandas (UndefinedVariableError a)" "raised_by_pandas (AttributeError a)"
  "raised_by_pandas (TypeError a)" "\<not> raised_by_pandas (DataIntegrityError ids)"
  by (simp_all add: raised_by_pandas_def)
























text \<open>
  A table with both sequence-number columns, as every TRACE table has: the renames of
  lines 1381, 1406 and 1431 each give the right frame of a merge a second column with the
  label of a key, so the post-cutover step, the pre-cutover cancellation step and every
  pass of the correction loop on such active trades raise.
\<close>

lemma check_keys_dup:
  "k \<in> set on \<Longrightarrow> check_key r k \<noteq> None \<Longrightarrow> check_keys l r on \<noteq> None"
  by (induction on) (auto split: option.splits)

lemma merge_dup:
  assumes "k \<in> set on" "1 < count_list (columns r) k"
  shows "\<exists>e. merge h ind l r on = Inl e"
proof -
  have "check_key r k \<noteq> None" using assms(2) by (simp add: check_key_def)
  with assms(1) have "check_keys l r on \<noteq> None" by (rule check_keys_dup)
  then show ?thesis by (auto simp: merge_def)
qed

lemma left_only_dup:
  assumes "k \<in> set on" "1 < count_list (columns r) k"
  shows "\<exists>e. left_only l r on = Inl e"
  using merge_dup[OF assms, of LeftJoin True l] by (auto simp: left_only_def bnd_def)

lemma count_list_relabel:
  "a \<noteq> b \<Longrightarrow> count_list (map (\<lambda>c. if c = a then b else c) cs) b
     = count_list cs a + count_list cs b"
  by (induction cs) auto

lemma count_list_pos: "x \<in> set xs \<Longrightarrow> 0 < count_list xs x"
  by (induction xs) auto

lemma rename_dup:
  "a \<noteq> b \<Longrightarrow> a \<in> set (columns df) \<Longrightarrow> b \<in> set (columns df) \<Longrightarrow>
   1 < count_list (columns (rename a b df)) b"
  using count_list_pos[of a "columns df"] count_list_pos[of b "columns df"]
  by (simp add: rename_def count_list_relabel)

lemma query_columns_eq: "query ns p df = Inr q \<Longrightarrow> columns q = columns df"
  by (auto dest: query_Inr)

lemma sel_columns:
  "trc_st_in vs df = Inr a \<Longrightarrow> columns a = columns df"
  "post_cutover df = Inr b \<Longrightarrow> columns b = columns df"
  "pre_cutover df = Inr c \<Longrightarrow> columns c = columns df"
  by (auto simp: trc_st_in_def post_cutover_def pre_cutover_def dest: query_columns_eq)

theorem both_sequence_columns_raise:
  assumes "''msg_seq_nb'' \<in> set (columns df)" "''orig_msg_seq_nb'' \<in> set (columns df)"
  shows "(\<exists>e. trace_post df = Inl e) \<and> (\<exists>e. trace_pre_T df = Inl e) \<and>
         (\<exists>e. loop_body w df = Inl e)"
proof (intro conjI)
  show "\<exists>e. trace_post df = Inl e"
  proof (cases "trace_post df")
    case (Inl e) then show ?thesis by blast
  next
    case (Inr out)
    then obtain tr c y where y: "trc_st_in [''S''] df = Inr c" "post_cutover c = Inr y"
      and m: "left_only tr (rename ''orig_msg_seq_nb'' ''msg_seq_nb'' y) k_econ = Inr out"
      unfolding trace_post_def by (blast dest: bnd_Inr)
    from y have "columns y = columns df" by (simp add: sel_columns)
    with assms have "1 < count_list (columns (rename ''orig_msg_seq_nb'' ''msg_seq_nb'' y)) ''msg_seq_nb''"
      by (intro rename_dup) simp_all
    moreover have "''msg_seq_nb'' \<in> set k_econ" by (simp add: k_econ_def)
    ultimately have "\<exists>e. left_only tr (rename ''orig_msg_seq_nb'' ''msg_seq_nb'' y) k_econ = Inl e"
      by (rule left_only_dup[rotated])
    with m show ?thesis by simp
  qed
  show "\<exists>e. trace_pre_T df = Inl e"
  proof (cases "trace_pre_T df")
    case (Inl e) then show ?thesis by blast
  next
    case (Inr out)
    then obtain a c t where y: "trc_st_in [''C''] df = Inr a" "pre_cutover a = Inr c"
      and m: "left_only t (rename ''orig_msg_seq_nb'' ''msg_seq_nb'' c) k_econ = Inr out"
      unfolding trace_pre_T_def by (blast dest: bnd_Inr)
    from y have "columns c = columns df" by (simp add: sel_columns)
    with assms have "1 < count_list (columns (rename ''orig_msg_seq_nb'' ''msg_seq_nb'' c)) ''msg_seq_nb''"
      by (intro rename_dup) simp_all
    moreover have "''msg_seq_nb'' \<in> set k_econ" by (simp add: k_econ_def)
    ultimately have "\<exists>e. left_only t (rename ''orig_msg_seq_nb'' ''msg_seq_nb'' c) k_econ = Inl e"
      by (rule left_only_dup[rotated])
    with m show ?thesis by simp
  qed
  show "\<exists>e. loop_body w df = Inl e"
  proof -
    have "1 < count_list (columns (rename ''msg_seq_nb'' ''orig_msg_seq_nb'' df)) ''orig_msg_seq_nb''"
      using assms by (intro rename_dup) simp_all
    moreover have "''orig_msg_seq_nb'' \<in> set w_keys" by (simp add: w_keys_def)
    ultimately have "\<exists>e. merge InnerJoin False w (rename ''msg_seq_nb'' ''orig_msg_seq_nb'' df) w_keys = Inl e"
      by (rule merge_dup[rotated])
    then show ?thesis by (auto simp: loop_body_def bnd_def)
  qed
qed

theorem both_sequence_columns_raise_witness:
  "''msg_seq_nb'' \<in> set trace_columns \<and> ''orig_msg_seq_nb'' \<in> set trace_columns \<and>
   (\<exists>e. trace_post \<lparr>columns = trace_columns,
                     rows = [message 1 NA (Date 15097) ''B'' ''C'' ''T'' NA 995]\<rparr> = Inl e) \<and>
   (\<exists>e. trace_pre_T \<lparr>columns = trace_columns,
                      rows = [message 1 NA (Date 15097) ''B'' ''C'' ''T'' NA 995]\<rparr> = Inl e) \<and>
   (\<exists>e. loop_body \<lparr>columns = trace_columns, rows = []\<rparr>
           \<lparr>columns = trace_columns,
            rows = [message 1 NA (Date 15097) ''B'' ''C'' ''T'' NA 995]\<rparr> = Inl e)"
proof -
  have a: "''msg_seq_nb'' \<in> set trace_columns" and b: "''orig_msg_seq_nb'' \<in> set trace_columns"
    by (simp_all add: trace_columns_def)
  from both_sequence_columns_raise
    [of "\<lparr>columns = trace_columns,
          rows = [message 1 NA (Date 15097) ''B'' ''C'' ''T'' NA 995]\<rparr>"
        "\<lparr>columns = trace_columns, rows = []\<rparr>"] a b
  show ?thesis by simp
qed

text \<open>
  A merge suffixes every column that is no key and that both frames carry, and the two
  frames of each anti-join are selections of the same table. So the trades the
  cancellation step returns have columns \<open>asof_cd_x\<close> and \<open>asof_cd_y\<close> and no column
  \<open>asof_cd\<close>, and the reversal step, given them, raises at its first query.
\<close>

lemma left_only_columns:
  assumes "left_only l r on = Inr q"
  shows "set (columns q) \<subseteq> set (merge_columns False l r on)"
proof -
  from assms obtain m q1 where m: "merge LeftJoin True l r on = Inr m"
    and q1: "query [''_merge''] (\<lambda>g. g ''_merge'' = Str ''left_only'') m = Inr q1"
    and d: "drop_columns [''_merge''] q1 = Inr q"
    unfolding left_only_def by (blast dest: bnd_Inr)
  have "columns q1 = merge_columns True l r on"
    using merge_Inr[OF m] query_Inr[OF q1] by simp
  then show ?thesis using drop_columns_Inr[OF d] by (auto simp: merge_columns_True)
qed

lemma shared_column_is_renamed:
  assumes "left_only l r on = Inr q"
    and "c \<in> set (columns l) \<longleftrightarrow> c \<in> set (columns r)" "c \<notin> set on"
    and "last c \<noteq> CHR ''x''" "last c \<noteq> CHR ''y''"
  shows "c \<notin> set (columns q)"
proof
  assume "c \<in> set (columns q)"
  with left_only_columns[OF assms(1)] have "c \<in> set (merge_columns False l r on)" by blast
  then show False
    using assms(2-5) by (auto simp: merge_columns_def split: if_splits)
qed

theorem reversal_step_never_sees_asof_cd:
  assumes "trace_pre_T trace_all = Inr t"
  shows "trace_pre t = Inl (UndefinedVariableError ''asof_cd'')"
proof -
  from assms obtain a c b t0 where c: "trc_st_in [''C''] trace_all = Inr a" "pre_cutover a = Inr c"
    and t0: "trc_st_in [''T''] trace_all = Inr b" "pre_cutover b = Inr t0"
    and m: "left_only t0 (rename ''orig_msg_seq_nb'' ''msg_seq_nb'' c) k_econ = Inr t"
    unfolding trace_pre_T_def by (blast dest: bnd_Inr)
  from c t0 have cols: "columns c = columns trace_all" "columns t0 = columns trace_all"
    by (simp_all add: sel_columns)
  have "''asof_cd'' \<notin> set (columns t)"
  proof (rule shared_column_is_renamed[OF m])
    show "(''asof_cd'' \<in> set (columns t0)) =
          (''asof_cd'' \<in> set (columns (rename ''orig_msg_seq_nb'' ''msg_seq_nb'' c)))"
      using cols by (auto simp: rename_def)
  qed (simp_all add: k_econ_def)
  then show ?thesis by (simp add: trace_pre_def query_def bnd_def)
qed

theorem reversal_step_never_sees_asof_cd_witness:
  "\<exists>t. trace_pre_T \<lparr>columns = short_columns, rows = [short_trade]\<rparr> = Inr t \<and>
       trace_pre t = Inl (UndefinedVariableError ''asof_cd'')"
proof -
  have "\<exists>t. trace_pre_T \<lparr>columns = short_columns, rows = [short_trade]\<rparr> = Inr t"
    by (simp add: frame_defs trace_pre_T_def trc_st_in_def pre_cutover_def k_econ_def
        short_columns_def short_trade_def)
  then obtain t where t: "trace_pre_T \<lparr>columns = short_columns, rows = [short_trade]\<rparr> = Inr t"
    by blast
  from reversal_step_never_sees_asof_cd[OF t] t show ?thesis by blast
qed

subsection \<open>What the anti-joins keep where they return\<close>

text \<open>
  The chain keeps one row for each left row that no right row matches on the keys: the
  left row's cells, then a missing cell for each right column that is no key.
\<close>

lemma concat_map_if_singleton:
  "concat (map (\<lambda>x. if Q x then [f x] else []) xs) = map f (filter Q xs)"
  by (induction xs) auto

lemma filter_concat_map: "filter P (concat (map f xs)) = concat (map (\<lambda>x. filter P (f x)) xs)"
  by (induction xs) auto

lemma merge_row_left_only_rows:
  assumes "''_merge'' \<notin> set (columns l)" "''_merge'' \<notin> set (columns r)"
  shows "filter (\<lambda>x. cell_at (merge_columns True l r on) x ''_merge'' = Str ''left_only'')
            (merge_row LeftJoin True l r on lr)
         = (if matches l r on lr = []
            then [(fit (length (columns l)) lr
                   @ replicate (length (filter (\<lambda>c. c \<notin> set on) (columns r))) NA)
                  @ [Str ''left_only'']]
            else [])"
proof -
  have nm: "''_merge'' \<notin> set (merge_columns False l r on)"
    using assms by (rule merge_columns_no_merge)
  show ?thesis
  proof (cases "matches l r on lr = []")
    case True
    have "cell_at (merge_columns True l r on)
             (fit (length (columns l)) lr
              @ replicate (length (filter (\<lambda>c. c \<notin> set on) (columns r))) NA
              @ [Str ''left_only'']) ''_merge'' = Str ''left_only''"
      unfolding merge_columns_True append_assoc[symmetric]
      by (rule cell_at_last[OF nm]) (simp add: length_merge_columns_False)
    with True show ?thesis by (simp add: merge_row_def Let_def)
  next
    case False
    have "\<And>rr. cell_at (merge_columns True l r on)
             (fit (length (columns l)) lr
              @ fit (length (filter (\<lambda>c. c \<notin> set on) (columns r))) (nonkey (columns r) on rr)
              @ [Str ''both'']) ''_merge'' = Str ''both''"
      unfolding merge_columns_True append_assoc[symmetric]
      by (rule cell_at_last[OF nm]) (simp add: length_merge_columns_False)
    with False show ?thesis
      by (simp add: merge_row_def Let_def filter_map o_def)
  qed
qed

lemma left_only_frame:
  assumes "left_only l r on = Inr q"
  shows "columns q = merge_columns False l r on \<and>
         rows q = map (\<lambda>lr. fit (length (columns l)) lr
                         @ replicate (length (filter (\<lambda>c. c \<notin> set on) (columns r))) NA)
                    (filter (\<lambda>lr. matches l r on lr = []) (rows l))"
proof -
  let ?nk = "length (filter (\<lambda>c. c \<notin> set on) (columns r))"
  let ?row = "\<lambda>lr. fit (length (columns l)) lr @ replicate ?nk NA"
  let ?un = "filter (\<lambda>lr. matches l r on lr = []) (rows l)"
  from assms obtain m q1 where m: "merge LeftJoin True l r on = Inr m"
    and q1: "query [''_merge''] (\<lambda>g. g ''_merge'' = Str ''left_only'') m = Inr q1"
    and d: "drop_columns [''_merge''] q1 = Inr q"
    unfolding left_only_def by (blast dest: bnd_Inr)
  from merge_Inr[OF m] have mc: "columns m = merge_columns False l r on @ [''_merge'']"
    and mr: "rows m = concat (map (merge_row LeftJoin True l r on) (rows l))"
    and nm: "''_merge'' \<notin> set (columns l)" "''_merge'' \<notin> set (columns r)"
    by (simp_all add: merge_columns_True)
  have nmc: "''_merge'' \<notin> set (merge_columns False l r on)"
    using nm by (rule merge_columns_no_merge)
  have len: "\<And>lr. length (?row lr) = length (merge_columns False l r on)"
    by (simp add: length_merge_columns_False)
  have q1c: "columns q1 = columns m" using query_Inr[OF q1] by simp
  have "rows q1 = filter (\<lambda>x. cell_at (merge_columns True l r on) x ''_merge'' = Str ''left_only'')
                    (concat (map (merge_row LeftJoin True l r on) (rows l)))"
    using query_Inr[OF q1] by (simp add: mr mc merge_columns_True)
  also have "\<dots> = concat (map (\<lambda>lr. if matches l r on lr = []
                                     then [?row lr @ [Str ''left_only'']] else []) (rows l))"
    unfolding filter_concat_map merge_row_left_only_rows[OF nm] ..
  also have "\<dots> = map (\<lambda>lr. ?row lr @ [Str ''left_only'']) ?un"
    by (rule concat_map_if_singleton)
  finally have q1r: "rows q1 = map (\<lambda>lr. ?row lr @ [Str ''left_only'']) ?un" .
  have "columns q = merge_columns False l r on"
  proof -
    have "filter (\<lambda>k. k \<noteq> ''_merge'') (merge_columns False l r on) = merge_columns False l r on"
      unfolding filter_id_conv using nmc by blast
    then show ?thesis using drop_columns_Inr[OF d] nmc by (simp add: q1c mc)
  qed
  moreover have "rows q = map ?row ?un"
  proof -
    have "rows q = map (drop_cells (columns m) [''_merge'']) (rows q1)"
      using d by (auto simp: drop_columns_def q1c split: option.splits)
    also have "\<dots> = map ?row ?un"
      unfolding q1r mc using drop_cells_last[OF nmc len] by (simp add: o_def)
    finally show ?thesis .
  qed
  ultimately show ?thesis by simp
qed


lemma cell_at_relabel:
  assumes "\<forall>c \<in> set cs. f c = k \<longleftrightarrow> c = k"
  shows "cell_at (map f cs) r k = cell_at cs r k"
  using assms
proof (induction cs arbitrary: r)
  case Nil
  then show ?case by (simp add: cell_at_def)
next
  case (Cons c cs)
  show ?case
  proof (cases r)
    case Nil
    then show ?thesis by simp
  next
    case (Cons a r')
    have "cell_at (map f cs) r' k = cell_at cs r' k" using Cons.prems by (intro Cons.IH) simp
    then show ?thesis using Cons Cons.prems by (auto simp: cell_at_def)
  qed
qed

lemma merged_key_cell:
  assumes "k \<in> set on" "k \<in> set (columns l)" "last k \<noteq> CHR ''x''"
  shows "cell_at (merge_columns False l r on) (fit (length (columns l)) lr @ pad) k
         = cell_at (columns l) lr k"
proof -
  let ?f = "\<lambda>c. if c \<notin> set on \<and> c \<in> set (columns r) then c @ ''_x'' else c"
  have iff: "\<forall>c \<in> set (columns l). ?f c = k \<longleftrightarrow> c = k"
    using assms(1,3) by auto
  have mem: "k \<in> set (map ?f (columns l))"
    using assms(1,2) by (auto simp: image_iff intro!: bexI[of _ k])
  have "cell_at (merge_columns False l r on) (fit (length (columns l)) lr @ pad) k
        = cell_at (map ?f (columns l)) (fit (length (columns l)) lr) k"
    unfolding merge_columns_def using cell_at_append[OF mem, of "fit (length (columns l)) lr"]
    by simp
  also have "\<dots> = cell_at (columns l) (fit (length (columns l)) lr) k"
    by (rule cell_at_relabel[OF iff])
  also have "\<dots> = cell_at (columns l) lr k" by (rule cell_at_fit)
  finally show ?thesis .
qed

lemma check_keys_None:
  "check_keys l r on = None \<Longrightarrow> k \<in> set on \<Longrightarrow> k \<in> set (columns l) \<and> k \<in> set (columns r)"
  by (induction on) (auto simp: check_key_def split: option.splits if_splits)

lemma left_only_keys_present:
  assumes "left_only l r on = Inr q" "k \<in> set on"
  shows "k \<in> set (columns l) \<and> k \<in> set (columns r)"
proof -
  from assms(1) obtain m where "merge LeftJoin True l r on = Inr m"
    unfolding left_only_def by (blast dest: bnd_Inr)
  then have "check_keys l r on = None" by (auto simp: merge_def split: option.splits)
  then show ?thesis using assms(2) by (rule check_keys_None)
qed

lemma left_only_row_key:
  assumes lo: "left_only l r on = Inr q" and row: "row \<in> set (rows q)"
    and nx: "\<forall>k \<in> set on. last k \<noteq> CHR ''x''"
  shows "\<exists>lr \<in> set (rows l). key_of (columns q) on row = key_of (columns l) on lr \<and>
           (\<forall>rr \<in> set (rows r). key_of (columns r) on rr \<noteq> key_of (columns l) on lr)"
proof -
  from left_only_frame[OF lo] row obtain lr where lr: "lr \<in> set (rows l)"
    and un: "matches l r on lr = []"
    and rw: "row = fit (length (columns l)) lr
                   @ replicate (length (filter (\<lambda>c. c \<notin> set on) (columns r))) NA"
    and qc: "columns q = merge_columns False l r on"
    by auto
  have "key_of (columns q) on row = key_of (columns l) on lr"
    unfolding key_of_def qc rw
    using left_only_keys_present[OF lo] nx by (intro map_cong refl merged_key_cell) auto
  moreover have "\<forall>rr \<in> set (rows r). key_of (columns r) on rr \<noteq> key_of (columns l) on lr"
    using un by (auto simp: matches_def filter_empty_conv)
  ultimately show ?thesis using lr by blast
qed

lemma k_econ_no_x: "\<forall>k \<in> set k_econ. last k \<noteq> CHR ''x''"
  by (simp add: k_econ_def)

text \<open>
  The post-cutover cancellation step (lines 1348-1368), when it returns: no row it keeps
  has the economic-identity key of a post-cutover message with status X or C.
\<close>

theorem post_cutover_cancellations_removed:
  assumes "trace_post_TR trace_all = Inr tr" and "row \<in> set (rows tr)"
    and "x \<in> set (rows trace_all)"
    and "cell_at (columns trace_all) x ''trc_st'' = Str ''X'' \<or>
         cell_at (columns trace_all) x ''trc_st'' = Str ''C''"
    and "date_ge (cell_at (columns trace_all) x ''trd_rpt_dt'') cutover"
  shows "key_of (columns tr) k_econ row \<noteq> key_of (columns trace_all) k_econ x"
proof -
  from assms(1) obtain a t0 b xc where a: "trc_st_in [''T'', ''R''] trace_all = Inr a"
    and t0: "post_cutover a = Inr t0"
    and b: "trc_st_in [''X'', ''C''] trace_all = Inr b" and xc: "post_cutover b = Inr xc"
    and lo: "left_only t0 xc k_econ = Inr tr"
    unfolding trace_post_TR_def by (blast dest: bnd_Inr)
  have cols: "columns t0 = columns trace_all" "columns xc = columns trace_all"
    "columns b = columns trace_all"
    using a t0 b xc by (simp_all add: sel_columns)
  have "x \<in> set (rows b)"
    using b assms(3,4) by (auto simp: trc_st_in_def dest!: query_Inr)
  then have xin: "x \<in> set (rows xc)"
    using xc assms(5) by (auto simp: post_cutover_def cols dest!: query_Inr)
  from left_only_row_key[OF lo assms(2) k_econ_no_x] obtain lr where
    "key_of (columns tr) k_econ row = key_of (columns t0) k_econ lr"
    "\<forall>rr \<in> set (rows xc). key_of (columns xc) k_econ rr \<noteq> key_of (columns t0) k_econ lr"
    by blast
  with xin show ?thesis by (auto simp: cols)
qed

theorem post_cutover_cancellations_removed_witness:
  "\<exists>tr row. trace_post_TR post_table = Inr tr \<and> row \<in> set (rows tr) \<and>
     message 2 NA (Date 15401) ''B'' ''C'' ''X'' NA 1000 \<in> set (rows post_table) \<and>
     key_of (columns tr) k_econ row
       \<noteq> key_of (columns post_table) k_econ (message 2 NA (Date 15401) ''B'' ''C'' ''X'' NA 1000)"
proof -
  have "\<exists>tr. trace_post_TR post_table = Inr tr \<and> rows tr \<noteq> []"
    by (simp add: frame_defs trace_post_TR_def trc_st_in_def post_cutover_def k_econ_def
        post_table_def trace_columns_def message_def)
  then obtain tr where tr: "trace_post_TR post_table = Inr tr" and ne: "rows tr \<noteq> []"
    by blast
  from ne have row: "hd (rows tr) \<in> set (rows tr)" by simp
  have x: "message 2 NA (Date 15401) ''B'' ''C'' ''X'' NA 1000 \<in> set (rows post_table)"
    by (simp add: post_table_def)
  have st: "cell_at (columns post_table) (message 2 NA (Date 15401) ''B'' ''C'' ''X'' NA 1000) ''trc_st''
              = Str ''X'' \<or>
            cell_at (columns post_table) (message 2 NA (Date 15401) ''B'' ''C'' ''X'' NA 1000) ''trc_st''
              = Str ''C''"
    by (simp add: post_table_def trace_columns_def message_def cell_at_def)
  have dt: "date_ge (cell_at (columns post_table)
              (message 2 NA (Date 15401) ''B'' ''C'' ''X'' NA 1000) ''trd_rpt_dt'') cutover"
    by (simp add: post_table_def trace_columns_def message_def cell_at_def date_ge_def cutover_def)
  from post_cutover_cancellations_removed[OF tr row x st dt] tr row x
  show ?thesis by blast
qed

text \<open>
  The filter of agency buys (lines 1522-1532), when it returns: no row it keeps has the
  bond, execution date, volume and price of an agency sell.
\<close>

theorem matched_agency_buys_removed:
  assumes "trace_agency_sells trace_clean = Inr sells"
    and "trace_agency_buys_filtered trace_clean sells = Inr buys"
    and "row \<in> set (rows buys)" and "s \<in> set (rows trace_clean)"
    and "cell_at (columns trace_clean) s ''cntra_mp_id'' = Str ''D''"
    and "cell_at (columns trace_clean) s ''rpt_side_cd'' = Str ''S''"
  shows "key_of (columns buys) agency_keys row \<noteq> key_of (columns trace_clean) agency_keys s"
proof -
  from assms(1) obtain d where d: "query [''cntra_mp_id''] (\<lambda>g. g ''cntra_mp_id'' = Str ''D'') trace_clean = Inr d"
    and sd: "query [''rpt_side_cd''] (\<lambda>g. g ''rpt_side_cd'' = Str ''S'') d = Inr sells"
    unfolding trace_agency_sells_def by (blast dest: bnd_Inr)
  from assms(2) obtain d' b where d': "query [''cntra_mp_id''] (\<lambda>g. g ''cntra_mp_id'' = Str ''D'') trace_clean = Inr d'"
    and b: "query [''rpt_side_cd''] (\<lambda>g. g ''rpt_side_cd'' = Str ''B'') d' = Inr b"
    and lo: "left_only b sells agency_keys = Inr buys"
    unfolding trace_agency_buys_filtered_def by (blast dest: bnd_Inr)
  have cols: "columns d = columns trace_clean" "columns sells = columns trace_clean"
    "columns b = columns trace_clean"
    using d sd d' b by (simp_all add: query_columns_eq)
  have "s \<in> set (rows d)" using d assms(4,5) by (auto dest!: query_Inr)
  then have sin: "s \<in> set (rows sells)"
    using sd assms(6) by (auto simp: cols dest!: query_Inr)
  have nx: "\<forall>k \<in> set agency_keys. last k \<noteq> CHR ''x''" by (simp add: agency_keys_def)
  from left_only_row_key[OF lo assms(3) nx] obtain lr where
    "key_of (columns buys) agency_keys row = key_of (columns b) agency_keys lr"
    "\<forall>rr \<in> set (rows sells). key_of (columns sells) agency_keys rr \<noteq> key_of (columns b) agency_keys lr"
    by blast
  with sin show ?thesis by (auto simp: cols)
qed

theorem matched_agency_buys_removed_witness:
  "\<exists>sells buys row. trace_agency_sells agency_table = Inr sells \<and>
     trace_agency_buys_filtered agency_table sells = Inr buys \<and> row \<in> set (rows buys) \<and>
     message 1 NA (Date 15097) ''S'' ''D'' ''T'' NA 995 \<in> set (rows agency_table) \<and>
     key_of (columns buys) agency_keys row
       \<noteq> key_of (columns agency_table) agency_keys (message 1 NA (Date 15097) ''S'' ''D'' ''T'' NA 995)"
proof -
  have "\<exists>sells. trace_agency_sells agency_table = Inr sells \<and>
          (\<exists>buys. trace_agency_buys_filtered agency_table sells = Inr buys \<and> rows buys \<noteq> [])"
    by (simp add: frame_defs trace_agency_sells_def trace_agency_buys_filtered_def
        agency_keys_def agency_table_def trace_columns_def message_def)
  then obtain sells buys where sl: "trace_agency_sells agency_table = Inr sells"
    and bf: "trace_agency_buys_filtered agency_table sells = Inr buys" and ne: "rows buys \<noteq> []"
    by blast
  from ne have row: "hd (rows buys) \<in> set (rows buys)" by simp
  have x: "message 1 NA (Date 15097) ''S'' ''D'' ''T'' NA 995 \<in> set (rows agency_table)"
    by (simp add: agency_table_def)
  have mp: "cell_at (columns agency_table) (message 1 NA (Date 15097) ''S'' ''D'' ''T'' NA 995)
              ''cntra_mp_id'' = Str ''D''"
    by (simp add: agency_table_def trace_columns_def message_def cell_at_def)
  have sd: "cell_at (columns agency_table) (message 1 NA (Date 15097) ''S'' ''D'' ''T'' NA 995)
              ''rpt_side_cd'' = Str ''S''"
    by (simp add: agency_table_def trace_columns_def message_def cell_at_def)
  from matched_agency_buys_removed[OF sl bf row x mp sd] sl bf row x
  show ?thesis by blast
qed

subsection \<open>The code at the inputs of the remaining claims\<close>

text \<open>
  C1, at its input: a pre-cutover trade 1, a correction 2 of message 1 and a correction 3
  of message 2. The claim expects one surviving row. \<open>process_trace_data\<close> raises
  ValueError at line 1379, where the rename of \<open>orig_msg_seq_nb\<close> to \<open>msg_seq_nb\<close> gives the
  right frame of the merge two columns labelled \<open>msg_seq_nb\<close>; and the correction loop on
  its own, given the trade as active and the two corrections as pending, raises ValueError
  in its first pass (line 1430) for the same reason, on \<open>orig_msg_seq_nb\<close>.
\<close>

theorem correction_chain_raises:
  "snd (process_trace_data example_pandas
          \<lparr>columns = trace_columns,
           rows = [message 1 NA (Date 15097) ''B'' ''C'' ''T'' NA 995,
                   message 2 (Num 1) (Date 15098) ''B'' ''C'' ''W'' NA 1000,
                   message 3 (Num 2) (Date 15099) ''B'' ''C'' ''W'' NA 1005]\<rparr>)
     = Inl (ValueError ''The column label msg_seq_nb is not unique.'') \<and>
   correction_loop
     \<lparr>columns = trace_columns,
      rows = [message 2 (Num 1) (Date 15098) ''B'' ''C'' ''W'' NA 1000,
              message 3 (Num 2) (Date 15099) ''B'' ''C'' ''W'' NA 1005]\<rparr>
     \<lparr>columns = trace_columns,
      rows = [message 1 NA (Date 15097) ''B'' ''C'' ''T'' NA 995]\<rparr> 2 2
     = Inl (ValueError ''The column label orig_msg_seq_nb is not unique.'')"
  by (simp add: frame_defs step_defs)

text \<open>
  C2, at an input: one pre-cutover trade and no reversal. The claim expects the trade to
  survive the reversal step. The step (lines 1476-1508) raises KeyError: with no reversal
  there is no group, the frame of reversals has no \<open>seq\<close> column, and the merge asks for
  it. \<open>process_trace_data\<close> on the same table raises before it gets there.
\<close>

theorem reversal_step_raises:
  "trace_pre \<lparr>columns = trace_columns,
              rows = [message 1 NA (Date 15097) ''B'' ''C'' ''T'' NA 995]\<rparr>
     = Inl (KeyError ''seq'') \<and>
   snd (process_trace_data example_pandas
          \<lparr>columns = trace_columns,
           rows = [message 1 NA (Date 15097) ''B'' ''C'' ''T'' NA 995]\<rparr>)
     = Inl (ValueError ''The column label msg_seq_nb is not unique.'')"
  by (simp add: frame_defs step_defs trace_pre_def group_seq_def assign_seq_def sort_cols_def)

text \<open>
  C3, at an input: a pre-cutover trade 1 and a cancellation 2 of message 1 with the same
  economics. The claim expects an output without the trade. The pre-cutover cancellation
  step (lines 1394-1415) raises ValueError, the renamed frame of cancellations having two
  columns labelled \<open>msg_seq_nb\<close>, and so does \<open>process_trace_data\<close>, at line 1379.
\<close>

theorem cancellation_raises:
  "trace_pre_T \<lparr>columns = trace_columns,
       rows = [message 1 NA (Date 15097) ''B'' ''C'' ''T'' NA 995,
               message 2 (Num 1) (Date 15098) ''B'' ''C'' ''C'' NA 995]\<rparr>
     = Inl (ValueError ''The column label msg_seq_nb is not unique.'') \<and>
   snd (process_trace_data example_pandas \<lparr>columns = trace_columns,
       rows = [message 1 NA (Date 15097) ''B'' ''C'' ''T'' NA 995,
               message 2 (Num 1) (Date 15098) ''B'' ''C'' ''C'' NA 995]\<rparr>)
     = Inl (ValueError ''The column label msg_seq_nb is not unique.'')"
  by (simp add: frame_defs step_defs)

text \<open>
  C4, at an input: an agency sell, an agency buy with the same bond, date, volume and
  price, and a customer trade. The claim expects the sell and the customer trade. The
  agency step (lines 1512-1542) raises TypeError at \<open>.pipe(pd.concat, [...])\<close>.
\<close>

theorem agency_step_raises:
  "agency_clean \<lparr>columns = trace_columns, rows = []\<rparr>
     \<lparr>columns = trace_columns,
      rows = [message 1 NA (Date 15097) ''S'' ''D'' ''T'' NA 995,
              message 2 NA (Date 15097) ''B'' ''D'' ''T'' NA 995,
              message 3 NA (Date 15097) ''B'' ''C'' ''T'' NA 995]\<rparr>
     = Inl (TypeError ''concat() takes 1 positional argument but 2 were given'')"
  by (simp add: frame_defs step_defs agency_clean_def trace_agency_sells_def
      trace_agency_buys_filtered_def)

text \<open>
  C5, at an input: one message settled on day 15100, three days after its execution, with
  \<open>days_to_sttl_ct = 3\<close>, not when-issued, no special-trade flag, no as-of code. The claim
  expects it retained. The filter (lines 1545-1556) raises UndefinedVariableError at its
  first query (line 1551): \<open>float\<close> in \<open>days_to_sttl_ct.astype(float)\<close> is no name the query
  knows.
\<close>

theorem settlement_filter_raises:
  "trace_add_filters example_pandas \<lparr>columns = trace_columns,
      rows = [message 1 NA (Date 15097) ''B'' ''C'' ''T'' NA 995]\<rparr>
     = Inl (UndefinedVariableError ''float'')"
  by (simp add: frame_defs step_defs trace_add_filters_def isna_or_le_7_def sub_timestamps_def)

text \<open>The settlement filter returns on no frame, whatever the subtraction gives.\<close>

lemma trace_add_filters_never_returns: "trace_add_filters lib trace_clean \<noteq> Inr x"
  by (auto simp: trace_add_filters_def isna_or_le_7_def dest!: bnd_Inr split: if_splits)

text \<open>
  C6, at an input: a pre-cutover trade 1 and a correction 2 that names message 9, which
  is not in the table. The claim expects the loop to end with the correction dropped and
  the trade as it was. The loop, given the trade as active and the correction as pending,
  raises ValueError in its first pass (line 1430), the renamed active frame having two
  columns labelled \<open>orig_msg_seq_nb\<close>; \<open>process_trace_data\<close> on the table raises at line
  1379 before it reaches the loop.
\<close>

theorem orphan_correction_raises:
  "correction_loop
     \<lparr>columns = trace_columns,
      rows = [message 2 (Num 9) (Date 15098) ''B'' ''C'' ''W'' NA 1000]\<rparr>
     \<lparr>columns = trace_columns,
      rows = [message 1 NA (Date 15097) ''B'' ''C'' ''T'' NA 995]\<rparr> 1 1
     = Inl (ValueError ''The column label orig_msg_seq_nb is not unique.'') \<and>
   snd (process_trace_data example_pandas
          \<lparr>columns = trace_columns,
           rows = [message 1 NA (Date 15097) ''B'' ''C'' ''T'' NA 995,
                   message 2 (Num 9) (Date 15098) ''B'' ''C'' ''W'' NA 1000]\<rparr>)
     = Inl (ValueError ''The column label msg_seq_nb is not unique.'')"
  by (simp add: frame_defs step_defs)

text \<open>
  C7, at an input: a table holding one post-cutover customer trade. The claim expects
  \<open>process_trace_data\<close> to return a table that it returns again unchanged when applied to
  it. The first call raises ValueError at line 1379 and returns no table.
\<close>

theorem clean_returns_no_output:
  "snd (process_trace_data example_pandas
          \<lparr>columns = trace_columns,
           rows = [message 1 NA (Date 15400) ''B'' ''C'' ''T'' NA 995]\<rparr>)
     = Inl (ValueError ''The column label msg_seq_nb is not unique.'')"
  by (simp add: frame_defs step_defs)


end
